theory Spec2Isabelle
  imports Main "HOL-Library.Sublist"
begin

section \<open>JavaScript built-ins used by the converter\<close>

text \<open>
  The widget is TypeScript running on a JavaScript host. The functions of the host that
  the conversion code calls are modelled after ECMAScript (ECMA-262) and ECMA-402:
  a number that may be \<open>NaN\<close> is an \<open>int option\<close> (\<open>None\<close> is \<open>NaN\<close>), a \<open>Date\<close> is
  its time value in milliseconds since the epoch (\<open>None\<close> is an invalid date), a thrown
  exception is the left summand of a sum type. Strings are byte strings; text outside
  ASCII (the flag glyphs) is carried as its UTF-8 bytes and never inspected.
\<close>

subsection \<open>Strings\<close>

text \<open>\<open>String.prototype.replace\<close> with a string pattern: the first occurrence only.\<close>

fun replace :: "string \<Rightarrow> string \<Rightarrow> string \<Rightarrow> string" where
  "replace [] pat rep = (if pat = [] then rep else [])"
| "replace (c # cs) pat rep =
     (if prefix pat (c # cs) then rep @ drop (length pat) (c # cs)
      else c # replace cs pat rep)"

text \<open>\<open>a || b\<close> on strings: the empty string is falsy.\<close>

definition or_else :: "string \<Rightarrow> string \<Rightarrow> string" where
  "or_else a b = (if a = [] then b else a)"

definition isWhiteSpace :: "char \<Rightarrow> bool" where
  "isWhiteSpace c =
     (c \<in> set [CHR 0x09, CHR 0x0A, CHR 0x0B, CHR 0x0C, CHR 0x0D, CHR '' ''])"

text \<open>The value of a character as a digit in radix up to 36.\<close>

definition digitValue :: "char \<Rightarrow> nat option" where
  "digitValue c =
     (let n = (of_char c :: nat) in
      if 48 \<le> n \<and> n \<le> 57 then Some (n - 48)
      else if 97 \<le> n \<and> n \<le> 122 then Some (n - 87)
      else if 65 \<le> n \<and> n \<le> 90 then Some (n - 55)
      else None)"

definition isRadixDigit :: "nat \<Rightarrow> char \<Rightarrow> bool" where
  "isRadixDigit r c = (case digitValue c of None \<Rightarrow> False | Some d \<Rightarrow> d < r)"

fun digitsValue :: "nat \<Rightarrow> nat \<Rightarrow> string \<Rightarrow> nat" where
  "digitsValue r acc [] = acc"
| "digitsValue r acc (c # cs) =
     digitsValue r (acc * r + (case digitValue c of None \<Rightarrow> 0 | Some d \<Rightarrow> d)) cs"

text \<open>
  \<open>parseInt(s)\<close> with no radix argument: leading white space is skipped, a sign is
  read, a \<open>0x\<close> prefix selects radix 16, and the longest prefix of digits is the value;
  with no digit the result is \<open>NaN\<close>. Whatever follows the digits is ignored.
\<close>

definition parseInt :: "string \<Rightarrow> int option" where
  "parseInt inputString =
     (let s0 = dropWhile isWhiteSpace inputString;
          sign = (if s0 \<noteq> [] \<and> hd s0 = CHR ''-'' then - 1 else (1::int));
          s1 = (if s0 \<noteq> [] \<and> (hd s0 = CHR ''+'' \<or> hd s0 = CHR ''-'') then tl s0 else s0);
          hex = (prefix ''0x'' s1 \<or> prefix ''0X'' s1);
          r = (if hex then 16 else 10);
          s2 = (if hex then drop 2 s1 else s1);
          z = takeWhile (isRadixDigit r) s2
      in if z = [] then None else Some (sign * int (digitsValue r 0 z)))"

text \<open>Decimal numerals of a fixed width (zero padded) and of natural width.\<close>

definition digitChar :: "nat \<Rightarrow> char" where
  "digitChar n = char_of (48 + n mod 10)"

definition pad2 :: "int \<Rightarrow> string" where
  "pad2 n = [digitChar (nat n div 10), digitChar (nat n)]"

definition pad3 :: "int \<Rightarrow> string" where
  "pad3 n = [digitChar (nat n div 100), digitChar (nat n div 10), digitChar (nat n)]"

definition pad4 :: "int \<Rightarrow> string" where
  "pad4 n = [digitChar (nat n div 1000), digitChar (nat n div 100), digitChar (nat n div 10),
             digitChar (nat n)]"

definition pad6 :: "int \<Rightarrow> string" where
  "pad6 n = [digitChar (nat n div 100000), digitChar (nat n div 10000)] @ pad4 n"

fun showNat :: "nat \<Rightarrow> string" where
  "showNat n = (if n < 10 then [digitChar n] else showNat (n div 10) @ [digitChar n])"

definition showInt :: "int \<Rightarrow> string" where
  "showInt n = (if n < 0 then CHR ''-'' # showNat (nat (- n)) else showNat (nat n))"

text \<open>A string of exactly \<open>n\<close> decimal digits, as a number.\<close>

definition decimal :: "nat \<Rightarrow> string \<Rightarrow> int option" where
  "decimal n s =
     (if length s = n \<and> list_all (isRadixDigit 10) s then Some (int (digitsValue 10 0 s))
      else None)"

text \<open>\<open>String.prototype.split(" ")\<close>: the pieces between single spaces.\<close>

fun split_space :: "string \<Rightarrow> string \<Rightarrow> string list" where
  "split_space acc [] = [rev acc]"
| "split_space acc (c # cs) =
     (if c = CHR '' '' then rev acc # split_space [] cs else split_space (c # acc) cs)"

subsection \<open>Time values (ECMA-262, Time Values and Time Range)\<close>

definition msPerDay :: int where "msPerDay = 86400000"
definition msPerHour :: int where "msPerHour = 3600000"
definition msPerMinute :: int where "msPerMinute = 60000"
definition msPerSecond :: int where "msPerSecond = 1000"

definition Day :: "int \<Rightarrow> int" where
  "Day t = t div msPerDay"

definition TimeWithinDay :: "int \<Rightarrow> int" where
  "TimeWithinDay t = t mod msPerDay"

definition DaysInYear :: "int \<Rightarrow> int" where
  "DaysInYear y =
     (if y mod 4 \<noteq> 0 then 365 else if y mod 100 \<noteq> 0 then 366
      else if y mod 400 \<noteq> 0 then 365 else 366)"

definition DayFromYear :: "int \<Rightarrow> int" where
  "DayFromYear y =
     365 * (y - 1970) + (y - 1969) div 4 - (y - 1901) div 100 + (y - 1601) div 400"

text \<open>
  \<open>YearFromTime(t)\<close> is the largest year whose first day is not after \<open>t\<close>; it is found
  by counting down from a year that is not before it.
\<close>

function yearDown :: "int \<Rightarrow> int \<Rightarrow> int" where
  "yearDown y d = (if DayFromYear y \<le> d then y else yearDown (y - 1) d)"
  by pat_completeness auto
termination
proof (relation "measure (\<lambda>(y, d). nat (DayFromYear y - d))")
  show "wf (measure (\<lambda>(y, d). nat (DayFromYear y - d)))" by simp
next
  fix y d :: int
  assume above: "\<not> DayFromYear y \<le> d"
  have p: "(y - 1 - 1969) div 4 \<le> (y - 1969) div 4" by (simp add: zdiv_mono1)
  have q: "(y - 1901) div 100 \<le> (y - 1 - 1901) div 100 + 1" by linarith
  have r: "(y - 1 - 1601) div 400 \<le> (y - 1601) div 400" by (simp add: zdiv_mono1)
  have g: "\<And>p0 q0 r0 p1 q1 r1 :: int. p0 \<le> p1 \<Longrightarrow> q1 \<le> q0 + 1 \<Longrightarrow> r0 \<le> r1 \<Longrightarrow>
      365 * (y - 1 - 1970) + p0 - q0 + r0 < 365 * (y - 1970) + p1 - q1 + r1"
    by arith
  have "DayFromYear (y - 1) < DayFromYear y"
    unfolding DayFromYear_def by (rule g [OF p q r])
  with above show "((y - 1, d), y, d) \<in> measure (\<lambda>(y, d). nat (DayFromYear y - d))"
    by simp
qed

definition YearFromTime :: "int \<Rightarrow> int" where
  "YearFromTime t =
     (let d = Day t in yearDown (1970 + (if 0 \<le> d then d div 365 else d div 366)) d)"

definition InLeapYear :: "int \<Rightarrow> int" where
  "InLeapYear t = (if DaysInYear (YearFromTime t) = 366 then 1 else 0)"

definition DayWithinYear :: "int \<Rightarrow> int" where
  "DayWithinYear t = Day t - DayFromYear (YearFromTime t)"

text \<open>The day within the year on which month \<open>m\<close> (0 to 11) starts.\<close>

definition monthStart :: "int \<Rightarrow> int \<Rightarrow> int" where
  "monthStart leap m =
     (if m = 0 then 0 else if m = 1 then 31 else if m = 2 then 59 + leap
      else if m = 3 then 90 + leap else if m = 4 then 120 + leap
      else if m = 5 then 151 + leap else if m = 6 then 181 + leap
      else if m = 7 then 212 + leap else if m = 8 then 243 + leap
      else if m = 9 then 273 + leap else if m = 10 then 304 + leap
      else 334 + leap)"

definition MonthFromTime :: "int \<Rightarrow> int" where
  "MonthFromTime t =
     (let d = DayWithinYear t; l = InLeapYear t in
      if d < 31 then 0 else if d < 59 + l then 1 else if d < 90 + l then 2
      else if d < 120 + l then 3 else if d < 151 + l then 4 else if d < 181 + l then 5
      else if d < 212 + l then 6 else if d < 243 + l then 7 else if d < 273 + l then 8
      else if d < 304 + l then 9 else if d < 334 + l then 10 else 11)"

definition DateFromTime :: "int \<Rightarrow> int" where
  "DateFromTime t = DayWithinYear t - monthStart (InLeapYear t) (MonthFromTime t) + 1"

definition WeekDay :: "int \<Rightarrow> int" where
  "WeekDay t = (Day t + 4) mod 7"

definition HourFromTime :: "int \<Rightarrow> int" where
  "HourFromTime t = (t div msPerHour) mod 24"

definition MinFromTime :: "int \<Rightarrow> int" where
  "MinFromTime t = (t div msPerMinute) mod 60"

definition SecFromTime :: "int \<Rightarrow> int" where
  "SecFromTime t = (t div msPerSecond) mod 60"

definition msFromTime :: "int \<Rightarrow> int" where
  "msFromTime t = t mod msPerSecond"

definition MakeTime :: "int \<Rightarrow> int \<Rightarrow> int \<Rightarrow> int \<Rightarrow> int" where
  "MakeTime hour minute sec ms =
     hour * msPerHour + minute * msPerMinute + sec * msPerSecond + ms"

text \<open>
  \<open>MakeDay(year, month, date)\<close>: the day number of the first of the month, months
  beyond 0 to 11 carried into the year, plus \<open>date - 1\<close>.
\<close>

definition MakeDay :: "int \<Rightarrow> int \<Rightarrow> int \<Rightarrow> int" where
  "MakeDay year month date =
     (let ym = year + month div 12; mn = month mod 12 in
      DayFromYear ym + monthStart (if DaysInYear ym = 366 then 1 else 0) mn + date - 1)"

definition MakeDate :: "int \<Rightarrow> int \<Rightarrow> int" where
  "MakeDate day time = day * msPerDay + time"

text \<open>\<open>TimeClip\<close>: a time value is at most 8.64e15 ms from the epoch, else \<open>NaN\<close>.\<close>

definition TimeClip :: "int \<Rightarrow> int option" where
  "TimeClip t = (if \<bar>t\<bar> > 8640000000000000 then None else Some t)"

subsection \<open>The host environment\<close>

text \<open>
  What the code reads from its host: the clock (\<open>new Date()\<close>), the default time zone
  (\<open>Intl.DateTimeFormat().resolvedOptions().timeZone\<close>), the offset of local time
  (ECMA-262's implementation-defined \<open>LocalTZA(t, isUTC)\<close>, in milliseconds), and the
  time zone database behind \<open>Intl.DateTimeFormat\<close>: for a zone identifier it knows, the
  offset from UTC in minutes and the short zone name at each instant.
\<close>

record zone_info =
  utcOffset :: int
  shortName :: string

record host =
  clock :: int
  timeZone :: string
  LocalTZA :: "int \<Rightarrow> bool \<Rightarrow> int"
  zoneRules :: "string \<Rightarrow> (int \<Rightarrow> zone_info) option"

definition LocalTime :: "host \<Rightarrow> int \<Rightarrow> int" where
  "LocalTime h t = t + LocalTZA h t True"

definition UTC :: "host \<Rightarrow> int \<Rightarrow> int" where
  "UTC h t = t - LocalTZA h t False"

subsection \<open>Date\<close>

text \<open>
  \<open>Date.parse\<close> on the date-time string format of ECMA-262:
  \<open>YYYY\<close>, \<open>YYYY-MM\<close> or \<open>YYYY-MM-DD\<close>, then optionally \<open>T\<close> with \<open>HH:mm\<close>,
  \<open>HH:mm:ss\<close> or \<open>HH:mm:ss.sss\<close>, then optionally \<open>Z\<close> or \<open>+HH:mm\<close> or \<open>-HH:mm\<close>.
  With no offset, a date-only form is UTC and a date-time form is local time.
  Expanded years are left out, and a string outside the format is \<open>NaN\<close> here
  (an engine may accept more by its own heuristics).
\<close>

definition parseDatePart :: "string \<Rightarrow> (int \<times> int \<times> int) option" where
  "parseDatePart s =
     (if length s = 4 then
        (case decimal 4 s of None \<Rightarrow> None | Some y \<Rightarrow> Some (y, 1, 1))
      else if length s = 7 \<and> s ! 4 = CHR ''-'' then
        (case (decimal 4 (take 4 s), decimal 2 (drop 5 s)) of
           (Some y, Some m) \<Rightarrow> if 1 \<le> m \<and> m \<le> 12 then Some (y, m, 1) else None
         | _ \<Rightarrow> None)
      else if length s = 10 \<and> s ! 4 = CHR ''-'' \<and> s ! 7 = CHR ''-'' then
        (case (decimal 4 (take 4 s), decimal 2 (take 2 (drop 5 s)), decimal 2 (drop 8 s)) of
           (Some y, Some m, Some d) \<Rightarrow>
             if 1 \<le> m \<and> m \<le> 12 \<and> 1 \<le> d \<and> d \<le> 31 then Some (y, m, d) else None
         | _ \<Rightarrow> None)
      else None)"

definition validTime :: "int \<Rightarrow> int \<Rightarrow> int \<Rightarrow> int \<Rightarrow> bool" where
  "validTime hh mi ss ms =
     (mi \<le> 59 \<and> ss \<le> 59 \<and> (hh \<le> 23 \<or> (hh = 24 \<and> mi = 0 \<and> ss = 0 \<and> ms = 0)))"

definition parseTimePart :: "string \<Rightarrow> (int \<times> int \<times> int \<times> int) option" where
  "parseTimePart s =
     (if length s = 5 \<and> s ! 2 = CHR '':'' then
        (case (decimal 2 (take 2 s), decimal 2 (drop 3 s)) of
           (Some hh, Some mi) \<Rightarrow> if validTime hh mi 0 0 then Some (hh, mi, 0, 0) else None
         | _ \<Rightarrow> None)
      else if length s = 8 \<and> s ! 2 = CHR '':'' \<and> s ! 5 = CHR '':'' then
        (case (decimal 2 (take 2 s), decimal 2 (take 2 (drop 3 s)), decimal 2 (drop 6 s)) of
           (Some hh, Some mi, Some ss) \<Rightarrow>
             if validTime hh mi ss 0 then Some (hh, mi, ss, 0) else None
         | _ \<Rightarrow> None)
      else if length s = 12 \<and> s ! 2 = CHR '':'' \<and> s ! 5 = CHR '':'' \<and> s ! 8 = CHR ''.'' then
        (case (decimal 2 (take 2 s), decimal 2 (take 2 (drop 3 s)),
               decimal 2 (take 2 (drop 6 s)), decimal 3 (drop 9 s)) of
           (Some hh, Some mi, Some ss, Some ms) \<Rightarrow>
             if validTime hh mi ss ms then Some (hh, mi, ss, ms) else None
         | _ \<Rightarrow> None)
      else None)"

text \<open>The offset suffix, in minutes: \<open>Some None\<close> when there is none (local time).\<close>

definition parseOffsetPart :: "string \<Rightarrow> int option option" where
  "parseOffsetPart s =
     (if s = [] then Some None
      else if s = ''Z'' then Some (Some 0)
      else if length s = 6 \<and> (s ! 0 = CHR ''+'' \<or> s ! 0 = CHR ''-'') \<and> s ! 3 = CHR '':'' then
        (case (decimal 2 (take 2 (drop 1 s)), decimal 2 (drop 4 s)) of
           (Some hh, Some mi) \<Rightarrow>
             if hh \<le> 23 \<and> mi \<le> 59
             then Some (Some ((if s ! 0 = CHR ''-'' then - 1 else 1) * (hh * 60 + mi)))
             else None
         | _ \<Rightarrow> None)
      else None)"

definition isOffsetStart :: "char \<Rightarrow> bool" where
  "isOffsetStart c = (c = CHR ''Z'' \<or> c = CHR ''+'' \<or> c = CHR ''-'')"

definition Date_parse :: "host \<Rightarrow> string \<Rightarrow> int option" where
  "Date_parse h s =
     (let d = takeWhile (\<lambda>c. c \<noteq> CHR ''T'') s;
          rest = dropWhile (\<lambda>c. c \<noteq> CHR ''T'') s
      in case parseDatePart d of
           None \<Rightarrow> None
         | Some (y, m, dt) \<Rightarrow>
             let day = MakeDay y (m - 1) dt in
             if rest = [] then TimeClip (MakeDate day 0)
             else
               (case (parseTimePart (takeWhile (\<lambda>c. \<not> isOffsetStart c) (tl rest)),
                      parseOffsetPart (dropWhile (\<lambda>c. \<not> isOffsetStart c) (tl rest))) of
                  (Some (hh, mi, ss, ms), Some z) \<Rightarrow>
                    let t = MakeDate day (MakeTime hh mi ss ms) in
                    (case z of
                       None \<Rightarrow> TimeClip (UTC h t)
                     | Some off \<Rightarrow> TimeClip (t - off * msPerMinute))
                | _ \<Rightarrow> None))"

text \<open>
  The same fields read as literal UTC, whatever the host zone: what the string would
  denote with \<open>Z\<close> appended. This is the yardstick of the specification, not code.
\<close>

definition parseAsUTC :: "string \<Rightarrow> int option" where
  "parseAsUTC s = Date_parse \<lparr>clock = 0, timeZone = ''UTC'', LocalTZA = (\<lambda>t u. 0),
                               zoneRules = (\<lambda>z. None)\<rparr> s"

text \<open>\<open>new Date(value)\<close> for a number that may be \<open>NaN\<close>.\<close>

definition Date_of_number :: "int option \<Rightarrow> int option" where
  "Date_of_number v = (case v of None \<Rightarrow> None | Some t \<Rightarrow> TimeClip t)"

text \<open>\<open>Date.prototype.toISOString\<close> of a valid date.\<close>

definition toISOString :: "int \<Rightarrow> string" where
  "toISOString t =
     (let y = YearFromTime t in
      (if 0 \<le> y \<and> y \<le> 9999 then pad4 y
       else (if y < 0 then CHR ''-'' else CHR ''+'') # pad6 \<bar>y\<bar>)
      @ ''-'' @ pad2 (MonthFromTime t + 1) @ ''-'' @ pad2 (DateFromTime t)
      @ ''T'' @ pad2 (HourFromTime t) @ '':'' @ pad2 (MinFromTime t)
      @ '':'' @ pad2 (SecFromTime t) @ ''.'' @ pad3 (msFromTime t) @ ''Z'')"

text \<open>
  \<open>Date.prototype.toTimeString\<close> of a valid date, up to the offset; the name of the zone
  that an engine appends in parentheses is left out.
\<close>

definition toTimeString :: "host \<Rightarrow> int \<Rightarrow> string" where
  "toTimeString h t =
     (let l = LocalTime h t; off = LocalTZA h t True div msPerMinute in
      pad2 (HourFromTime l) @ '':'' @ pad2 (MinFromTime l) @ '':'' @ pad2 (SecFromTime l)
      @ '' GMT'' @ (if off < 0 then ''-'' else ''+'')
      @ pad2 (\<bar>off\<bar> div 60) @ pad2 (\<bar>off\<bar> mod 60))"

text \<open>\<open>d.getHours()\<close> and \<open>d.setHours(hour)\<close> of a valid date: both work on local time.\<close>

definition getHours :: "host \<Rightarrow> int \<Rightarrow> int" where
  "getHours h t = HourFromTime (LocalTime h t)"

definition setHours :: "host \<Rightarrow> int \<Rightarrow> int \<Rightarrow> int option" where
  "setHours h t hour =
     (let l = LocalTime h t;
          date = MakeDate (Day l) (MakeTime hour (MinFromTime l) (SecFromTime l) (msFromTime l))
      in TimeClip (UTC h date))"

subsection \<open>Intl.DateTimeFormat for \<open>en-US\<close>\<close>

text \<open>
  The formatter is modelled for the option sets the code uses, with the patterns of the
  \<open>en-US\<close> locale; the separators of those patterns are plain spaces. Constructing a
  formatter for a zone identifier the host does not know throws \<open>RangeError\<close>, and so
  does formatting an invalid date.
\<close>

datatype js_error = RangeError

text \<open>
  The option sets, next to the time zone:
  \<^item> \<open>DateTimeShort\<close>: year numeric, month short, day numeric, hour numeric, minute
    2-digit, hour12 (\<open>Jun 12, 2025, 8:00 AM\<close>);
  \<^item> \<open>TimeShort\<close>: hour numeric, minute 2-digit, hour12 (\<open>8:00 AM\<close>);
  \<^item> \<open>MonthDay\<close>: month short, day numeric (\<open>Jun 12\<close>);
  \<^item> \<open>WeekdayDateLong\<close>: weekday long, year numeric, month long, day numeric
    (\<open>Thursday, June 12, 2025\<close>);
  \<^item> \<open>HourMinute\<close>: hour numeric, minute numeric (\<open>8:00 AM\<close>);
  \<^item> \<open>ZoneNameShort\<close>: timeZoneName short, to which \<open>toLocaleString\<close> adds the default
    date and time fields (\<open>6/12/2025, 8:00:00 AM EDT\<close>).
\<close>

datatype dtf_options =
    DateTimeShort
  | TimeShort
  | MonthDay
  | WeekdayDateLong
  | HourMinute
  | ZoneNameShort

definition monthShort :: "int \<Rightarrow> string" where
  "monthShort m =
     [''Jan'', ''Feb'', ''Mar'', ''Apr'', ''May'', ''Jun'', ''Jul'', ''Aug'', ''Sep'',
      ''Oct'', ''Nov'', ''Dec''] ! nat (m mod 12)"

definition monthLong :: "int \<Rightarrow> string" where
  "monthLong m =
     [''January'', ''February'', ''March'', ''April'', ''May'', ''June'', ''July'',
      ''August'', ''September'', ''October'', ''November'', ''December''] ! nat (m mod 12)"

definition weekdayLong :: "int \<Rightarrow> string" where
  "weekdayLong w =
     [''Sunday'', ''Monday'', ''Tuesday'', ''Wednesday'', ''Thursday'', ''Friday'',
      ''Saturday''] ! nat (w mod 7)"

definition hour12 :: "int \<Rightarrow> int" where
  "hour12 hh = (if hh mod 12 = 0 then 12 else hh mod 12)"

definition dayPeriod :: "int \<Rightarrow> string" where
  "dayPeriod hh = (if hh < 12 then ''AM'' else ''PM'')"

text \<open>The parts of a formatted date: the instant \<open>t\<close> shown on the civil clock of a zone.\<close>

definition formatParts :: "dtf_options \<Rightarrow> zone_info \<Rightarrow> int \<Rightarrow> (string \<times> string) list" where
  "formatParts opts z t =
     (let l = t + utcOffset z * msPerMinute;
          year = (''year'', showInt (YearFromTime l));
          day = (''day'', showInt (DateFromTime l));
          hour = (''hour'', showInt (hour12 (HourFromTime l)));
          minute = (''minute'', pad2 (MinFromTime l));
          period = (''dayPeriod'', dayPeriod (HourFromTime l));
          lit = (\<lambda>x. (''literal'', x))
      in case opts of
           DateTimeShort \<Rightarrow>
             [(''month'', monthShort (MonthFromTime l)), lit '' '', day, lit '', '', year,
              lit '', '', hour, lit '':'', minute, lit '' '', period]
         | TimeShort \<Rightarrow> [hour, lit '':'', minute, lit '' '', period]
         | MonthDay \<Rightarrow> [(''month'', monthShort (MonthFromTime l)), lit '' '', day]
         | WeekdayDateLong \<Rightarrow>
             [(''weekday'', weekdayLong (WeekDay l)), lit '', '',
              (''month'', monthLong (MonthFromTime l)), lit '' '', day, lit '', '', year]
         | HourMinute \<Rightarrow> [hour, lit '':'', minute, lit '' '', period]
         | ZoneNameShort \<Rightarrow>
             [(''month'', showInt (MonthFromTime l + 1)), lit ''/'', day, lit ''/'', year,
              lit '', '', hour, lit '':'', minute, lit '':'',
              (''second'', pad2 (SecFromTime l)), lit '' '', period, lit '' '',
              (''timeZoneName'', shortName z)])"

text \<open>\<open>new Intl.DateTimeFormat("en-US", {timeZone: z, ...}).formatToParts(date)\<close>\<close>

definition formatToParts ::
  "host \<Rightarrow> string \<Rightarrow> dtf_options \<Rightarrow> int option \<Rightarrow> js_error + (string \<times> string) list" where
  "formatToParts h z opts date =
     (case zoneRules h z of
        None \<Rightarrow> Inl RangeError
      | Some rules \<Rightarrow>
          (case date of
             None \<Rightarrow> Inl RangeError
           | Some t \<Rightarrow> Inr (formatParts opts (rules t) t)))"

text \<open>\<open>new Intl.DateTimeFormat("en-US", {timeZone: z, ...}).format(date)\<close>\<close>

definition format :: "host \<Rightarrow> string \<Rightarrow> dtf_options \<Rightarrow> int option \<Rightarrow> js_error + string" where
  "format h z opts date =
     (case formatToParts h z opts date of
        Inl e \<Rightarrow> Inl e
      | Inr parts \<Rightarrow> Inr (concat (map snd parts)))"

text \<open>
  \<open>date.toLocaleString("en-US", {timeZone: z, ...})\<close>: an invalid date gives the
  string \<open>Invalid Date\<close> before any formatter is made.
\<close>

definition toLocaleString :: "host \<Rightarrow> string \<Rightarrow> dtf_options \<Rightarrow> int option \<Rightarrow> js_error + string" where
  "toLocaleString h z opts date =
     (case date of None \<Rightarrow> Inr ''Invalid Date'' | Some t \<Rightarrow> format h z opts date)"

text \<open>\<open>Array.prototype.map\<close> with a callback that may throw: the first throw ends the map.\<close>

fun mapE :: "('a \<Rightarrow> 'e + 'b) \<Rightarrow> 'a list \<Rightarrow> 'e + 'b list" where
  "mapE f [] = Inr []"
| "mapE f (x # xs) =
     (case f x of
        Inl e \<Rightarrow> Inl e
      | Inr y \<Rightarrow> (case mapE f xs of Inl e \<Rightarrow> Inl e | Inr ys \<Rightarrow> Inr (y # ys)))"

text \<open>\<open>String.prototype.includes\<close>\<close>

fun includes_str :: "string \<Rightarrow> string \<Rightarrow> bool" where
  "includes_str [] pat = (pat = [])"
| "includes_str (c # cs) pat = (prefix pat (c # cs) \<or> includes_str cs pat)"

section \<open>The zone catalog\<close>

record TimeZone =
  name :: string
  zone :: string
  flag :: string
  isLocal :: "bool option"

definition popularTimeZones :: "TimeZone list" where
  "popularTimeZones =
     [\<lparr>name = ''New York'', zone = ''America/New_York'',
       flag = [CHR 0xF0, CHR 0x9F, CHR 0x87, CHR 0xBA, CHR 0xF0, CHR 0x9F, CHR 0x87, CHR 0xB8],
       isLocal = None\<rparr>,
      \<lparr>name = ''Los Angeles'', zone = ''America/Los_Angeles'',
       flag = [CHR 0xF0, CHR 0x9F, CHR 0x87, CHR 0xBA, CHR 0xF0, CHR 0x9F, CHR 0x87, CHR 0xB8],
       isLocal = None\<rparr>,
      \<lparr>name = ''London'', zone = ''Europe/London'',
       flag = [CHR 0xF0, CHR 0x9F, CHR 0x87, CHR 0xAC, CHR 0xF0, CHR 0x9F, CHR 0x87, CHR 0xA7],
       isLocal = None\<rparr>,
      \<lparr>name = ''Tokyo'', zone = ''Asia/Tokyo'',
       flag = [CHR 0xF0, CHR 0x9F, CHR 0x87, CHR 0xAF, CHR 0xF0, CHR 0x9F, CHR 0x87, CHR 0xB5],
       isLocal = None\<rparr>,
      \<lparr>name = ''Sydney'', zone = ''Australia/Sydney'',
       flag = [CHR 0xF0, CHR 0x9F, CHR 0x87, CHR 0xA6, CHR 0xF0, CHR 0x9F, CHR 0x87, CHR 0xBA],
       isLocal = None\<rparr>,
      \<lparr>name = ''Dubai'', zone = ''Asia/Dubai'',
       flag = [CHR 0xF0, CHR 0x9F, CHR 0x87, CHR 0xA6, CHR 0xF0, CHR 0x9F, CHR 0x87, CHR 0xAA],
       isLocal = None\<rparr>]"

text \<open>The viewer's zone is read from the host by the call and put first.\<close>

definition allTimeZones :: "host \<Rightarrow> TimeZone list" where
  "allTimeZones h =
     \<lparr>name = ''Your Local Time'', zone = timeZone h,
      flag = [CHR 0xF0, CHR 0x9F, CHR 0x93, CHR 0x8D], isLocal = Some True\<rparr>
     # popularTimeZones"

section \<open>The offset picker\<close>

text \<open>The options of the event-timezone select, in display order.\<close>

definition utcOffsets :: "string list" where
  "utcOffsets =
     [''UTC-12'', ''UTC-11'', ''UTC-10'', ''UTC-9'', ''UTC-8'', ''UTC-7'', ''UTC-6'',
      ''UTC-5'', ''UTC-4'', ''UTC-3'', ''UTC-2'', ''UTC-1'', ''UTC'', ''UTC+1'',
      ''UTC+2'', ''UTC+3'', ''UTC+4'', ''UTC+5'', ''UTC+6'', ''UTC+7'', ''UTC+8'',
      ''UTC+9'', ''UTC+10'', ''UTC+11'', ''UTC+12'']"

text \<open>\<open>parseInt(eventTimeZone.replace("UTC", "") || "0")\<close>\<close>

definition offsetHours :: "string \<Rightarrow> int option" where
  "offsetHours eventTimeZone = parseInt (or_else (replace eventTimeZone ''UTC'' '''') ''0'')"

text \<open>
  The anchor of the offset-picker widget: the date and time fields are joined into a
  date-time string with no offset, parsed by \<open>new Date\<close>, and the selected number of
  hours is subtracted.
\<close>

definition adjustedDate :: "host \<Rightarrow> string \<Rightarrow> string \<Rightarrow> string \<Rightarrow> int option" where
  "adjustedDate h dateStr timeStr tzLabel =
     (let eventDateTime = Date_parse h (dateStr @ ''T'' @ timeStr @ '':00'')
      in Date_of_number
           (case (eventDateTime, offsetHours tzLabel) of
              (Some t, Some n) \<Rightarrow> Some (t - n * 60 * 60 * 1000)
            | _ \<Rightarrow> None))"

record ConvertedTime = TimeZone +
  converted :: string
  timeOnly :: string
  dateOnly :: string

text \<open>The callback of the map over the zones: three formatters per zone.\<close>

definition convertTime :: "host \<Rightarrow> int option \<Rightarrow> TimeZone \<Rightarrow> js_error + ConvertedTime" where
  "convertTime h adjusted tz =
     (case format h (zone tz) DateTimeShort adjusted of
        Inl e \<Rightarrow> Inl e
      | Inr c \<Rightarrow>
          (case format h (zone tz) TimeShort adjusted of
             Inl e \<Rightarrow> Inl e
           | Inr t \<Rightarrow>
               (case format h (zone tz) MonthDay adjusted of
                  Inl e \<Rightarrow> Inl e
                | Inr d \<Rightarrow>
                    Inr \<lparr>name = name tz, zone = zone tz, flag = flag tz, isLocal = isLocal tz,
                         converted = c, timeOnly = t, dateOnly = d\<rparr>)))"

text \<open>The state of the offset-picker widget (its \<open>useState\<close> cells).\<close>

record OffsetApp =
  eventDate :: string
  eventTime :: string
  eventTimeZone :: string
  convertedTimes :: "ConvertedTime list"
  copiedIndex :: "nat option"

text \<open>
  The select element offers the labels of \<open>utcOffsets\<close> and nothing else; choosing the
  \<open>i\<close>-th option sets the event time zone to that label.
\<close>

definition selectEventTimeZone :: "nat \<Rightarrow> OffsetApp \<Rightarrow> OffsetApp" where
  "selectEventTimeZone i s =
     (if i < length utcOffsets then s\<lparr>OffsetApp.eventTimeZone := utcOffsets ! i\<rparr> else s)"

text \<open>
  How a run of \<open>convertTimes\<close> ends: it returns at once on an empty field, it sets the
  result list, or its \<open>catch\<close> logs the exception with \<open>console.error\<close>.
\<close>

datatype outcome = Skipped | Converted "ConvertedTime list" | Caught js_error

definition convertTimes_outcome :: "host \<Rightarrow> OffsetApp \<Rightarrow> outcome" where
  "convertTimes_outcome h s =
     (if eventDate s = [] \<or> eventTime s = [] then Skipped
      else
        (case mapE (convertTime h (adjustedDate h (eventDate s) (eventTime s) (eventTimeZone s)))
                   (allTimeZones h) of
           Inl e \<Rightarrow> Caught e
         | Inr conversions \<Rightarrow> Converted conversions))"

definition convertTimes :: "host \<Rightarrow> OffsetApp \<Rightarrow> OffsetApp" where
  "convertTimes h s =
     (case convertTimes_outcome h s of
        Converted conversions \<Rightarrow> s\<lparr>convertedTimes := conversions\<rparr>
      | _ \<Rightarrow> s)"

text \<open>What the run writes to the console; the widget has no message for the user.\<close>

definition console_error :: "host \<Rightarrow> OffsetApp \<Rightarrow> string list" where
  "console_error h s =
     (case convertTimes_outcome h s of Caught e \<Rightarrow> [''Conversion error:''] | _ \<Rightarrow> [])"

definition formatDateTime :: "host \<Rightarrow> int \<Rightarrow> string \<times> string" where
  "formatDateTime h date =
     (takeWhile (\<lambda>c. c \<noteq> CHR ''T'') (toISOString date), take 5 (toTimeString h date))"

text \<open>
  \<open>handleQuickFill\<close> sets the two fields; the effect on \<open>convertTimes\<close> then converts
  the new fields after the render.
\<close>

definition handleQuickFill :: "host \<Rightarrow> int \<Rightarrow> OffsetApp \<Rightarrow> OffsetApp" where
  "handleQuickFill h hours s =
     (case setHours h (clock h) (getHours h (clock h) + hours) of
        None \<Rightarrow> s
      | Some now \<Rightarrow>
          s\<lparr>eventDate := fst (formatDateTime h now), eventTime := snd (formatDateTime h now)\<rparr>)"


section \<open>The free-text and the date-picker widgets\<close>

text \<open>
  Both build the same record per zone. The offset label looks for a \<open>timeZoneName\<close>
  part in the parts of an hour-and-minute formatter and, finding none with \<open>GMT\<close> in it,
  takes the third space-separated piece of a localized string.
\<close>

record ConvertedRow = TimeZone +
  converted :: string
  fullDate :: string
  timeOnly :: string
  offset :: string

definition convertRow :: "host \<Rightarrow> int option \<Rightarrow> TimeZone \<Rightarrow> js_error + ConvertedRow" where
  "convertRow h date tz =
     (case formatToParts h (zone tz) HourMinute date of
        Inl e \<Rightarrow> Inl e
      | Inr parts \<Rightarrow>
          let offsetPart =
                (case find (\<lambda>part. fst part = ''timeZoneName'') parts of
                   None \<Rightarrow> [] | Some part \<Rightarrow> snd part)
          in
          (case (if includes_str offsetPart ''GMT'' then Inr offsetPart
                 else (case toLocaleString h (zone tz) ZoneNameShort date of
                         Inl e \<Rightarrow> Inl e
                       | Inr str \<Rightarrow>
                           Inr (''GMT'' @ (let pieces = split_space [] str in
                                           if 2 < length pieces then pieces ! 2
                                           else ''undefined'')))) of
             Inl e \<Rightarrow> Inl e
           | Inr label \<Rightarrow>
               (case toLocaleString h (zone tz) DateTimeShort date of
                  Inl e \<Rightarrow> Inl e
                | Inr c \<Rightarrow>
                    (case toLocaleString h (zone tz) WeekdayDateLong date of
                       Inl e \<Rightarrow> Inl e
                     | Inr f \<Rightarrow>
                         (case toLocaleString h (zone tz) TimeShort date of
                            Inl e \<Rightarrow> Inl e
                          | Inr t \<Rightarrow>
                              Inr \<lparr>name = name tz, zone = zone tz, flag = flag tz,
                                   isLocal = isLocal tz, converted = c, fullDate = f,
                                   timeOnly = t, offset = label\<rparr>)))))"

datatype input_mode = TextMode | DatetimeMode

text \<open>The state of the free-text widget.\<close>

record TextApp =
  eventTime :: string
  convertedTimes :: "ConvertedRow list"
  error :: string
  isConverting :: bool
  copiedIndex :: "nat option"
  inputMode :: input_mode

text \<open>\<open>handleConvert\<close> of the free-text widget, run to its end (the delay is cosmetic).\<close>

definition handleConvert_text :: "host \<Rightarrow> TextApp \<Rightarrow> TextApp" where
  "handleConvert_text h s =
     (if TextApp.eventTime s = [] then s\<lparr>TextApp.error := ''Please enter an event time''\<rparr>
      else
        (case Date_parse h (TextApp.eventTime s) of
           None \<Rightarrow>
             s\<lparr>TextApp.isConverting := False,
               TextApp.error := ''Invalid date format. Please use ISO format (e.g., 2025-06-12T12:00:00Z) or select a valid date.''\<rparr>
         | Some t \<Rightarrow>
             (case mapE (convertRow h (Some t)) (allTimeZones h) of
                Inr conversions \<Rightarrow>
                  s\<lparr>TextApp.convertedTimes := conversions, TextApp.error := [],
                    TextApp.isConverting := False\<rparr>
              | Inl e \<Rightarrow>
                  s\<lparr>TextApp.error := ''Error converting time. Please try again.'',
                    TextApp.isConverting := False\<rparr>)))"

text \<open>
  \<open>handleQuickFill\<close> of the free-text widget: \<open>setEventTime\<close> takes effect at the next
  render, so the \<open>handleConvert()\<close> it calls still reads the event time of this render.
\<close>

definition handleQuickFill_text :: "host \<Rightarrow> int \<Rightarrow> TextApp \<Rightarrow> TextApp" where
  "handleQuickFill_text h hours s =
     (case setHours h (clock h) (getHours h (clock h) + hours) of
        None \<Rightarrow> s
      | Some now \<Rightarrow> (handleConvert_text h s)\<lparr>TextApp.eventTime := toISOString now\<rparr>)"

text \<open>
  The state of the date-picker widget; its event time is a \<open>Date\<close> or \<open>null\<close>, and a
  \<open>Date\<close> may be invalid.
\<close>

record PickerApp =
  eventTime :: "int option option"
  eventTimeZone :: string
  convertedTimes :: "ConvertedRow list"
  error :: string
  isConverting :: bool
  copiedIndex :: "nat option"



section \<open>Hosts to run the code on\<close>

text \<open>
  A zone database with the rules of the six catalog zones and of UTC as they are in
  2025, and three hosts over it: one in New York, one in Tokyo, one on UTC.
\<close>

definition rules2025 :: "string \<Rightarrow> (int \<Rightarrow> zone_info) option" where
  "rules2025 z =
     (if z = ''America/New_York'' then
        Some (\<lambda>t. if 1741503600000 \<le> t \<and> t < 1762063200000
                  then \<lparr>utcOffset = - 240, shortName = ''EDT''\<rparr>
                  else \<lparr>utcOffset = - 300, shortName = ''EST''\<rparr>)
      else if z = ''America/Los_Angeles'' then
        Some (\<lambda>t. if 1741514400000 \<le> t \<and> t < 1762074000000
                  then \<lparr>utcOffset = - 420, shortName = ''PDT''\<rparr>
                  else \<lparr>utcOffset = - 480, shortName = ''PST''\<rparr>)
      else if z = ''Europe/London'' then
        Some (\<lambda>t. if 1743296400000 \<le> t \<and> t < 1761440400000
                  then \<lparr>utcOffset = 60, shortName = ''GMT+1''\<rparr>
                  else \<lparr>utcOffset = 0, shortName = ''GMT''\<rparr>)
      else if z = ''Asia/Tokyo'' then
        Some (\<lambda>t. \<lparr>utcOffset = 540, shortName = ''GMT+9''\<rparr>)
      else if z = ''Australia/Sydney'' then
        Some (\<lambda>t. if 1743868800000 \<le> t \<and> t < 1759593600000
                  then \<lparr>utcOffset = 600, shortName = ''GMT+10''\<rparr>
                  else \<lparr>utcOffset = 660, shortName = ''GMT+11''\<rparr>)
      else if z = ''Asia/Dubai'' then
        Some (\<lambda>t. \<lparr>utcOffset = 240, shortName = ''GMT+4''\<rparr>)
      else if z = ''UTC'' then
        Some (\<lambda>t. \<lparr>utcOffset = 0, shortName = ''UTC''\<rparr>)
      else None)"

text \<open>
  Local time in New York: a local reading that is skipped or repeated at a transition
  takes the offset in force before the transition.
\<close>

definition hostNewYork :: "int \<Rightarrow> host" where
  "hostNewYork now =
     \<lparr>clock = now, timeZone = ''America/New_York'',
      LocalTZA = (\<lambda>t isUTC.
        if isUTC then
          (if 1741503600000 \<le> t \<and> t < 1762063200000 then - 4 * msPerHour else - 5 * msPerHour)
        else
          (if 1741503600000 - 4 * msPerHour \<le> t \<and> t < 1762063200000 - 4 * msPerHour
           then - 4 * msPerHour else - 5 * msPerHour)),
      zoneRules = rules2025\<rparr>"

definition hostTokyo :: "int \<Rightarrow> host" where
  "hostTokyo now =
     \<lparr>clock = now, timeZone = ''Asia/Tokyo'', LocalTZA = (\<lambda>t isUTC. 9 * msPerHour),
      zoneRules = rules2025\<rparr>"

definition hostUTC :: "int \<Rightarrow> host" where
  "hostUTC now =
     \<lparr>clock = now, timeZone = ''UTC'', LocalTZA = (\<lambda>t isUTC. 0), zoneRules = rules2025\<rparr>"

section \<open>Vocabulary of the properties\<close>

text \<open>The string a formatter gives for an instant in a zone.\<close>

definition render :: "dtf_options \<Rightarrow> zone_info \<Rightarrow> int \<Rightarrow> string" where
  "render opts z t = concat (map snd (formatParts opts z t))"

text \<open>Every zone of the list of a call is in the host's database.\<close>

definition knownZones :: "host \<Rightarrow> bool" where
  "knownZones h = list_all (\<lambda>tz. zoneRules h (zone tz) \<noteq> None) (allTimeZones h)"

text \<open>A run of \<open>convertTimes\<close> is successful when it sets the result list.\<close>

definition succeeds :: "host \<Rightarrow> OffsetApp \<Rightarrow> bool" where
  "succeeds h s = (case convertTimes_outcome h s of Converted cs \<Rightarrow> True | _ \<Rightarrow> False)"

text \<open>Inputs for running the code: noon of 12 June 2025 with the offset \<open>UTC\<close>.\<close>

definition noonInput :: OffsetApp where
  "noonInput = \<lparr>eventDate = ''2025-06-12'', eventTime = ''12:00'', eventTimeZone = ''UTC'',
                 convertedTimes = [], copiedIndex = None\<rparr>"

definition noonText :: TextApp where
  "noonText = \<lparr>TextApp.eventTime = ''2025-06-12T12:00'', TextApp.convertedTimes = [],
                TextApp.error = [], TextApp.isConverting = False, TextApp.copiedIndex = None,
                inputMode = TextMode\<rparr>"




definition emptyText :: TextApp where
  "emptyText = \<lparr>TextApp.eventTime = [], TextApp.convertedTimes = [],
                TextApp.error = [], TextApp.isConverting = False, TextApp.copiedIndex = None,
                inputMode = TextMode\<rparr>"



section \<open>Properties\<close>

subsection \<open>Calendar arithmetic\<close>

text \<open>
  The year of a time value is the one ECMA-262 asks for, the largest year that starts on
  or before the day; the day within the year, the month and the day of the month are in
  their ranges, and \<open>MakeDay\<close> takes the three fields back to the day number.
\<close>

lemma yearDown_correct:
  "d < DayFromYear (y + 1) \<Longrightarrow>
     DayFromYear (yearDown y d) \<le> d \<and> d < DayFromYear (yearDown y d + 1)"
proof (induction y d rule: yearDown.induct)
  case (1 y d)
  show ?case
  proof (cases "DayFromYear y \<le> d")
    case True
    with "1.prems" show ?thesis by (simp add: yearDown.simps [of y d])
  next
    case False
    then have "d < DayFromYear (y - 1 + 1)" by simp
    from "1.IH" [OF False this] False show ?thesis
      by (simp add: yearDown.simps [of y d])
  qed
qed

lemma DayFromYear_after_1970:
  assumes "1970 \<le> y"
  shows "365 * (y - 1970) \<le> DayFromYear y"
proof -
  have c: "0 \<le> (y - 1601) div 400" using assms by linarith
  show ?thesis
  proof (cases "y < 2001")
    case True
    then have b: "(y - 1901) div 100 = 0" using assms by linarith
    have a: "0 \<le> (y - 1969) div 4" using assms by linarith
    show ?thesis unfolding DayFromYear_def b using a c by linarith
  next
    case False
    have a: "y - 1972 \<le> 4 * ((y - 1969) div 4)" by linarith
    have b: "100 * ((y - 1901) div 100) \<le> y - 1901" by linarith
    have g: "\<And>p q r :: int. y - 1972 \<le> 4 * p \<Longrightarrow> 100 * q \<le> y - 1901 \<Longrightarrow> 0 \<le> r \<Longrightarrow>
        365 * (y - 1970) \<le> 365 * (y - 1970) + p - q + r"
      using False by auto
    show ?thesis unfolding DayFromYear_def by (rule g [OF a b c])
  qed
qed

lemma DayFromYear_before_1970:
  assumes "y \<le> 1970"
  shows "366 * (y - 1970) \<le> DayFromYear y"
proof (cases "1969 \<le> y")
  case True
  with assms have "y = 1969 \<or> y = 1970" by linarith
  then show ?thesis by (auto simp: DayFromYear_def)
next
  case False
  have a: "y - 1972 \<le> 4 * ((y - 1969) div 4)" by linarith
  have b: "100 * ((y - 1901) div 100) \<le> y - 1901" by linarith
  have c: "y - 2000 \<le> 400 * ((y - 1601) div 400)" by linarith
  have g: "\<And>p q r :: int. y - 1972 \<le> 4 * p \<Longrightarrow> 100 * q \<le> y - 1901 \<Longrightarrow> y - 2000 \<le> 400 * r \<Longrightarrow>
      366 * (y - 1970) \<le> 365 * (y - 1970) + p - q + r"
    using False by auto
  show ?thesis unfolding DayFromYear_def by (rule g [OF a b c])
qed

lemma YearFromTime_correct:
  "DayFromYear (YearFromTime t) \<le> Day t \<and> Day t < DayFromYear (YearFromTime t + 1)"
proof -
  let ?d = "Day t"
  let ?g = "1970 + (if 0 \<le> ?d then ?d div 365 else ?d div 366)"
  have "?d < DayFromYear (?g + 1)"
  proof (cases "0 \<le> ?d")
    case True
    then have "1970 \<le> 1971 + ?d div 365" by (simp add: pos_imp_zdiv_nonneg_iff)
    from DayFromYear_after_1970 [OF this]
    have "365 * (?d div 365 + 1) \<le> DayFromYear (1971 + ?d div 365)" by simp
    moreover have "?d < 365 * (?d div 365 + 1)"
    proof -
      have g: "\<And>q r D :: int. 365 * q + r = D \<Longrightarrow> r < 365 \<Longrightarrow> D < 365 * (q + 1)" by auto
      have "?d mod 365 < 365" by simp
      with mult_div_mod_eq [of 365 ?d] show ?thesis by (rule g)
    qed
    ultimately show ?thesis using True by (simp add: add.commute)
  next
    case False
    then have "?d div 366 < 0" by (simp add: div_neg_pos_less0)
    then have "1971 + ?d div 366 \<le> 1970" by linarith
    from DayFromYear_before_1970 [OF this]
    have "366 * (?d div 366 + 1) \<le> DayFromYear (1971 + ?d div 366)" by simp
    moreover have "?d < 366 * (?d div 366 + 1)"
    proof -
      have g: "\<And>q r D :: int. 366 * q + r = D \<Longrightarrow> r < 366 \<Longrightarrow> D < 366 * (q + 1)" by auto
      have "?d mod 366 < 366" by simp
      with mult_div_mod_eq [of 366 ?d] show ?thesis by (rule g)
    qed
    ultimately show ?thesis using False by (simp add: add.commute)
  qed
  from yearDown_correct [OF this] show ?thesis
    by (simp add: YearFromTime_def Let_def)
qed

lemma MonthFromTime_range: "0 \<le> MonthFromTime t \<and> MonthFromTime t \<le> 11"
  by (simp add: MonthFromTime_def Let_def)

lemma MakeDay_of_fields: "MakeDay (YearFromTime t) (MonthFromTime t) (DateFromTime t) = Day t"
proof -
  from MonthFromTime_range [of t]
  have "MonthFromTime t div 12 = 0" "MonthFromTime t mod 12 = MonthFromTime t"
    by simp_all
  then show ?thesis
    by (simp add: MakeDay_def Let_def DateFromTime_def DayWithinYear_def InLeapYear_def)
qed

lemma step_div:
  fixes y k c :: int
  assumes "0 < k"
  shows "(y + 1 - c) div k = (y - c) div k + (if (y + 1 - c) mod k = 0 then 1 else 0)"
proof -
  let ?a = "y - c"
  have a: "y + 1 - c = ?a + 1" by simp
  have m: "0 \<le> ?a mod k" "?a mod k < k" using assms by simp_all
  show ?thesis
  proof (cases "?a mod k = k - 1")
    case True
    have "(?a + 1) = k * (?a div k + 1) + 0"
      using mult_div_mod_eq [of k ?a] True by (simp add: algebra_simps)
    then have d: "(?a + 1) div k = ?a div k + 1"
      using assms by (metis add.right_neutral div_mult_self1_is_m mult.commute div_mult_self2 add_cancel_right_right nonzero_mult_div_cancel_left less_irrefl)
    have "(?a + 1) mod k = 0"
      using True assms by (metis mod_add_left_eq diff_add_cancel mod_self)
    with d show ?thesis unfolding a by simp
  next
    case False
    with m have lt: "?a mod k + 1 < k" by linarith
    have e: "?a + 1 = k * (?a div k) + (?a mod k + 1)"
      using mult_div_mod_eq [of k ?a] by simp
    have d: "(?a + 1) div k = ?a div k"
      using lt m(1) e by (metis add.commute add_nonneg_nonneg div_mult_self2 div_pos_pos_trivial zero_le_one add_cancel_left_left assms less_irrefl)
    have "(?a + 1) mod k = ?a mod k + 1"
      using lt m(1) e by (metis add_nonneg_nonneg mod_mult_self2 mod_pos_pos_trivial zero_le_one add.commute)
    with m(1) have "(?a + 1) mod k \<noteq> 0" by linarith
    with d show ?thesis unfolding a by simp
  qed
qed

lemma DayFromYear_step: "DayFromYear (y + 1) = DayFromYear y + DaysInYear y"
proof -
  have m4: "(y + 1 - 1969) mod 4 = 0 \<longleftrightarrow> y mod 4 = 0"
    using mod_mult_self1 [of y "- 492" 4] by simp
  have m100: "(y + 1 - 1901) mod 100 = 0 \<longleftrightarrow> y mod 100 = 0"
    using mod_mult_self1 [of y "- 19" 100] by simp
  have m400: "(y + 1 - 1601) mod 400 = 0 \<longleftrightarrow> y mod 400 = 0"
    using mod_mult_self1 [of y "- 4" 400] by simp
  have "(4::int) dvd 100" "(100::int) dvd 400" by simp_all
  then have i1: "y mod 100 = 0 \<Longrightarrow> y mod 4 = 0" and i2: "y mod 400 = 0 \<Longrightarrow> y mod 100 = 0"
    by (auto simp: mod_eq_0_iff_dvd dest: dvd_trans)
  have s4: "(y + 1 - 1969) div 4 = (y - 1969) div 4 + (if y mod 4 = 0 then 1 else 0)"
    using step_div [of 4 y 1969] by (simp only: m4) 
  have s100: "(y + 1 - 1901) div 100 = (y - 1901) div 100 + (if y mod 100 = 0 then 1 else 0)"
    using step_div [of 100 y 1901] by (simp only: m100)
  have s400: "(y + 1 - 1601) div 400 = (y - 1601) div 400 + (if y mod 400 = 0 then 1 else 0)"
    using step_div [of 400 y 1601] by (simp only: m400)
  show ?thesis
    unfolding DayFromYear_def DaysInYear_def s4 s100 s400
    using i1 i2 by auto
qed

lemma DayWithinYear_range:
  "0 \<le> DayWithinYear t \<and> DayWithinYear t < DaysInYear (YearFromTime t)"
  using YearFromTime_correct [of t] DayFromYear_step [of "YearFromTime t"]
  by (simp add: DayWithinYear_def)

lemma DateFromTime_range: "1 \<le> DateFromTime t \<and> DateFromTime t \<le> 31"
proof -
  have l: "InLeapYear t = 0 \<and> DaysInYear (YearFromTime t) = 365
         \<or> InLeapYear t = 1 \<and> DaysInYear (YearFromTime t) = 366"
    by (auto simp: InLeapYear_def DaysInYear_def)
  with DayWithinYear_range [of t] show ?thesis
    by (auto simp: DateFromTime_def MonthFromTime_def monthStart_def Let_def)
qed

subsection \<open>Offset extraction\<close>

lemma digitValue_digits [simp]:
  "digitValue (CHR ''0'') = Some 0" "digitValue (CHR ''1'') = Some 1"
  "digitValue (CHR ''2'') = Some 2" "digitValue (CHR ''3'') = Some 3"
  "digitValue (CHR ''4'') = Some 4" "digitValue (CHR ''5'') = Some 5"
  "digitValue (CHR ''6'') = Some 6" "digitValue (CHR ''7'') = Some 7"
  "digitValue (CHR ''8'') = Some 8" "digitValue (CHR ''9'') = Some 9"
  by (simp_all add: digitValue_def)

lemma digitValue_punct [simp]:
  "digitValue (CHR '':'') = None" "digitValue (CHR ''-'') = None"
  "digitValue (CHR ''+'') = None" "digitValue (CHR ''.'') = None"
  "digitValue (CHR '' '') = None"
  by (simp_all add: digitValue_def)

lemma offsetHours_labels: "map offsetHours utcOffsets = map Some [-12..12]"
proof -
  have up: "[-12..12] = [-12,-11,-10,-9,-8,-7,-6,-5,-4,-3,-2,-1,0,1,2,3,4,5,6,7,8,9,10,11,12::int]"
    by (simp add: upto.simps)
  show ?thesis
    unfolding up
    by (simp add: utcOffsets_def offsetHours_def parseInt_def or_else_def isWhiteSpace_def
        isRadixDigit_def Let_def)
qed

text \<open>
  C10: for every label of the offset list the extraction expression is defined (never
  \<open>NaN\<close>) and returns the integer the label denotes: the labels, in order, give
  \<open>-12, ..., 12\<close>, and the bare \<open>UTC\<close> gives 0 through the empty-string fallback.
\<close>

theorem offsetHours_utcOffsets:
  "map offsetHours utcOffsets = map Some [-12..12]
   \<and> or_else (replace ''UTC'' ''UTC'' []) ''0'' = ''0''
   \<and> offsetHours ''UTC'' = parseInt ''0''
   \<and> offsetHours ''UTC'' = Some 0
   \<and> None \<notin> set (map offsetHours utcOffsets)"
proof -
  have z: "offsetHours ''UTC'' = Some 0"
    by (simp add: offsetHours_def parseInt_def or_else_def isWhiteSpace_def
        isRadixDigit_def Let_def)
  have p: "offsetHours ''UTC'' = parseInt ''0''"
    by (simp add: offsetHours_def or_else_def)
  have e: "or_else (replace ''UTC'' ''UTC'' []) ''0'' = ''0''"
    by (simp add: or_else_def)
  have n: "None \<notin> set (map offsetHours utcOffsets)"
    unfolding offsetHours_labels by auto
  show ?thesis using offsetHours_labels z p n e by simp
qed

subsection \<open>Structure of a conversion\<close>

lemma mapE_Inr_iff:
  "mapE f xs = Inr ys \<longleftrightarrow> list_all2 (\<lambda>x y. f x = Inr y) xs ys"
proof (induction xs arbitrary: ys)
  case Nil
  show ?case by auto
next
  case (Cons x xs)
  show ?case
    by (auto simp: list_all2_Cons1 Cons.IH [symmetric] split: sum.splits)
qed

lemma mapE_all_succeed:
  "\<forall>x \<in> set xs. \<exists>r. f x = Inr r \<Longrightarrow> \<exists>rs. mapE f xs = Inr rs"
  by (induction xs) (auto split: sum.splits)



lemma format_known:
  "zoneRules h z = Some rules \<Longrightarrow> format h z opts (Some t) = Inr (render opts (rules t) t)"
  by (simp add: format_def formatToParts_def render_def)

lemma format_unknown: "zoneRules h z = None \<Longrightarrow> format h z opts d = Inl RangeError"
  by (simp add: format_def formatToParts_def)

lemma format_invalid: "format h z opts None = Inl RangeError"
  by (simp add: format_def formatToParts_def split: option.splits)

lemma convertTime_known:
  "zoneRules h (zone tz) = Some rules \<Longrightarrow>
   convertTime h (Some t) tz =
     Inr \<lparr>name = name tz, zone = zone tz, flag = flag tz, isLocal = isLocal tz,
          ConvertedTime.converted = render DateTimeShort (rules t) t,
          ConvertedTime.timeOnly = render TimeShort (rules t) t,
          dateOnly = render MonthDay (rules t) t\<rparr>"
  by (simp add: convertTime_def format_known)

lemma convertTime_unknown:
  "zoneRules h (zone tz) = None \<Longrightarrow> convertTime h d tz = Inl RangeError"
  by (simp add: convertTime_def format_unknown)

lemma convertTime_invalid: "convertTime h None tz = Inl RangeError"
  by (simp add: convertTime_def format_invalid)

lemma convertTime_Inr:
  assumes "convertTime h d tz = Inr r"
  shows "TimeZone.truncate r = tz" and "\<exists>t rules. d = Some t \<and> zoneRules h (zone tz) = Some rules"
proof -
  from assms obtain t where d: "d = Some t"
    by (cases d) (auto simp: convertTime_invalid)
  from assms obtain rules where z: "zoneRules h (zone tz) = Some rules"
    by (cases "zoneRules h (zone tz)") (auto simp: convertTime_unknown)
  from assms show "TimeZone.truncate r = tz"
    unfolding d convertTime_known [OF z]
    by (cases tz) (auto simp: TimeZone.truncate_def)
  show "\<exists>t rules. d = Some t \<and> zoneRules h (zone tz) = Some rules"
    using d z by blast
qed

lemma convertRow_known:
  "zoneRules h (zone tz) = Some rules \<Longrightarrow>
   convertRow h (Some t) tz =
     Inr \<lparr>name = name tz, zone = zone tz, flag = flag tz, isLocal = isLocal tz,
          converted = render DateTimeShort (rules t) t,
          fullDate = render WeekdayDateLong (rules t) t,
          timeOnly = render TimeShort (rules t) t,
          offset = ''GMT'' @ (let pieces = split_space [] (render ZoneNameShort (rules t) t)
                              in if 2 < length pieces then pieces ! 2 else ''undefined'')\<rparr>"
  by (simp add: convertRow_def formatToParts_def toLocaleString_def format_known
      formatParts_def Let_def)

lemma convertRow_unknown:
  "zoneRules h (zone tz) = None \<Longrightarrow> convertRow h d tz = Inl RangeError"
  by (simp add: convertRow_def formatToParts_def)

lemma convertRow_invalid: "convertRow h None tz = Inl RangeError"
  by (simp add: convertRow_def formatToParts_def split: option.splits)

lemma convertRow_Inr:
  assumes "convertRow h d tz = Inr r"
  shows "TimeZone.truncate r = tz"
proof -
  from assms obtain t where d: "d = Some t"
    by (cases d) (auto simp: convertRow_invalid)
  from assms obtain rules where z: "zoneRules h (zone tz) = Some rules"
    by (cases "zoneRules h (zone tz)") (auto simp: convertRow_unknown)
  from assms show "TimeZone.truncate r = tz"
    unfolding d convertRow_known [OF z]
    by (cases tz) (auto simp: TimeZone.truncate_def)
qed

lemma mapE_truncate:
  assumes "\<And>x r. f x = Inr r \<Longrightarrow> TimeZone.truncate r = x"
  shows "mapE f xs = Inr rs \<Longrightarrow> map TimeZone.truncate rs = xs"
proof (induction xs arbitrary: rs)
  case Nil
  then show ?case by simp
next
  case (Cons x xs)
  then show ?case by (auto split: sum.splits dest: assms)
qed

lemma knownZones_D:
  "knownZones h \<Longrightarrow> tz \<in> set (allTimeZones h) \<Longrightarrow> \<exists>rules. zoneRules h (zone tz) = Some rules"
  by (auto simp: knownZones_def list_all_iff)

lemma convertTime_succeeds:
  assumes "knownZones h"
  shows "\<exists>cs. mapE (convertTime h (Some t)) (allTimeZones h) = Inr cs"
proof -
  have "\<forall>tz \<in> set (allTimeZones h). \<exists>r. convertTime h (Some t) tz = Inr r"
    using knownZones_D [OF assms] convertTime_known by blast
  then show ?thesis
    by (rule mapE_all_succeed)
qed

lemma allTimeZones_nonempty: "allTimeZones h \<noteq> []"
  by (simp add: allTimeZones_def)

lemma succeeds_iff:
  "succeeds h s \<longleftrightarrow>
     OffsetApp.eventDate s \<noteq> [] \<and> OffsetApp.eventTime s \<noteq> []
     \<and> adjustedDate h (OffsetApp.eventDate s) (OffsetApp.eventTime s) (OffsetApp.eventTimeZone s) \<noteq> None
     \<and> knownZones h"
proof
  assume ok: "succeeds h s"
  let ?a = "adjustedDate h (OffsetApp.eventDate s) (OffsetApp.eventTime s) (OffsetApp.eventTimeZone s)"
  from ok have ne: "OffsetApp.eventDate s \<noteq> []" "OffsetApp.eventTime s \<noteq> []"
    by (auto simp: succeeds_def convertTimes_outcome_def split: if_splits)
  from ok ne obtain cs where cs: "mapE (convertTime h ?a) (allTimeZones h) = Inr cs"
    by (auto simp: succeeds_def convertTimes_outcome_def split: sum.splits)
  then have all: "list_all2 (\<lambda>x y. convertTime h ?a x = Inr y) (allTimeZones h) cs"
    by (simp add: mapE_Inr_iff)
  have each: "\<exists>r. convertTime h ?a tz = Inr r" if "tz \<in> set (allTimeZones h)" for tz
    using all that by (auto simp: list_all2_conv_all_nth in_set_conv_nth)
  have "?a \<noteq> None"
  proof
    assume "?a = None"
    moreover obtain tz where "tz \<in> set (allTimeZones h)"
      using allTimeZones_nonempty [of h] by (cases "allTimeZones h") auto
    ultimately show False using each [of tz] by (simp add: convertTime_invalid)
  qed
  moreover have "knownZones h"
    unfolding knownZones_def list_all_iff
  proof
    fix tz assume "tz \<in> set (allTimeZones h)"
    then obtain r where "convertTime h ?a tz = Inr r" using each by blast
    then show "zoneRules h (zone tz) \<noteq> None"
      by (auto dest: convertTime_Inr(2))
  qed
  ultimately show "OffsetApp.eventDate s \<noteq> [] \<and> OffsetApp.eventTime s \<noteq> [] \<and> ?a \<noteq> None \<and> knownZones h"
    using ne by simp
next
  assume a: "OffsetApp.eventDate s \<noteq> [] \<and> OffsetApp.eventTime s \<noteq> []
     \<and> adjustedDate h (OffsetApp.eventDate s) (OffsetApp.eventTime s) (OffsetApp.eventTimeZone s) \<noteq> None
     \<and> knownZones h"
  then obtain t where t: "adjustedDate h (OffsetApp.eventDate s) (OffsetApp.eventTime s) (OffsetApp.eventTimeZone s) = Some t"
    by auto
  from a obtain cs where "mapE (convertTime h (Some t)) (allTimeZones h) = Inr cs"
    using convertTime_succeeds by blast
  with a t show "succeeds h s"
    by (simp add: succeeds_def convertTimes_outcome_def)
qed

lemma succeeds_results:
  assumes "succeeds h s"
  shows "mapE (convertTime h (adjustedDate h (OffsetApp.eventDate s) (OffsetApp.eventTime s) (OffsetApp.eventTimeZone s)))
           (allTimeZones h) = Inr (OffsetApp.convertedTimes (convertTimes h s))"
  using assms
  by (auto simp: succeeds_def convertTimes_def convertTimes_outcome_def
      split: if_splits sum.splits)

lemma text_ok_iff:
  "TextApp.error (handleConvert_text h u) = [] \<longleftrightarrow>
     TextApp.eventTime u \<noteq> [] \<and> Date_parse h (TextApp.eventTime u) \<noteq> None \<and> knownZones h"
proof
  assume ok: "TextApp.error (handleConvert_text h u) = []"
  then have ne: "TextApp.eventTime u \<noteq> []"
    by (auto simp: handleConvert_text_def split: if_splits)
  from ok ne obtain t where t: "Date_parse h (TextApp.eventTime u) = Some t"
    by (cases "Date_parse h (TextApp.eventTime u)") (auto simp: handleConvert_text_def)
  from ok ne t obtain rows where rows: "mapE (convertRow h (Some t)) (allTimeZones h) = Inr rows"
    by (cases "mapE (convertRow h (Some t)) (allTimeZones h)") (auto simp: handleConvert_text_def)
  then have all: "list_all2 (\<lambda>x y. convertRow h (Some t) x = Inr y) (allTimeZones h) rows"
    by (simp add: mapE_Inr_iff)
  have "knownZones h"
    unfolding knownZones_def list_all_iff
  proof
    fix tz assume "tz \<in> set (allTimeZones h)"
    then obtain r where "convertRow h (Some t) tz = Inr r"
      using all by (auto simp: list_all2_conv_all_nth in_set_conv_nth)
    then show "zoneRules h (zone tz) \<noteq> None"
      by (cases "zoneRules h (zone tz)") (auto simp: convertRow_unknown)
  qed
  with ne t show "TextApp.eventTime u \<noteq> [] \<and> Date_parse h (TextApp.eventTime u) \<noteq> None \<and> knownZones h"
    by simp
next
  assume a: "TextApp.eventTime u \<noteq> [] \<and> Date_parse h (TextApp.eventTime u) \<noteq> None \<and> knownZones h"
  then obtain t where t: "Date_parse h (TextApp.eventTime u) = Some t" by auto
  have "\<forall>tz \<in> set (allTimeZones h). \<exists>r. convertRow h (Some t) tz = Inr r"
    using knownZones_D convertRow_known a by blast
  then have "\<exists>rows. mapE (convertRow h (Some t)) (allTimeZones h) = Inr rows"
    by (rule mapE_all_succeed)
  with a t show "TextApp.error (handleConvert_text h u) = []"
    by (auto simp: handleConvert_text_def)
qed

lemma text_ok_results:
  assumes "TextApp.error (handleConvert_text h u) = []"
  shows "\<exists>t. Date_parse h (TextApp.eventTime u) = Some t \<and>
     mapE (convertRow h (Some t)) (allTimeZones h) = Inr (TextApp.convertedTimes (handleConvert_text h u))"
  using assms
  by (auto simp: handleConvert_text_def split: if_splits option.splits sum.splits)

lemma names_distinct: "distinct (map name (allTimeZones h))"
  by (simp add: allTimeZones_def popularTimeZones_def)

lemma length_all: "length (allTimeZones h) = 7" "length popularTimeZones = 6"
  by (simp_all add: allTimeZones_def popularTimeZones_def)

lemma name_truncate: "map name (map TimeZone.truncate rs) = map name rs"
  by (simp add: TimeZone.truncate_def)

lemma head_and_tail:
  assumes "map TimeZone.truncate rs = allTimeZones h"
  shows "zone (hd rs) = timeZone h" and "map TimeZone.truncate (tl rs) = popularTimeZones"
proof -
  from assms obtain r rest where rs: "rs = r # rest"
    by (cases rs) (auto simp: allTimeZones_def)
  with assms have "TimeZone.truncate r = hd (allTimeZones h)"
    and t: "map TimeZone.truncate rest = popularTimeZones"
    by (simp_all add: allTimeZones_def)
  then have "zone (TimeZone.truncate r) = timeZone h" by (simp add: allTimeZones_def)
  then show "zone (hd rs) = timeZone h" by (simp add: rs TimeZone.truncate_def)
  from t show "map TimeZone.truncate (tl rs) = popularTimeZones" by (simp add: rs)
qed

text \<open>
  C2: after every successful conversion the result list has one record per zone of
  \<open>allTimeZones\<close>, in that order: the viewer's zone, then the six catalog zones. Its
  length is 1 + |catalog| = 7, stripped of the formatted fields it is the zone list itself
  (nothing omitted, nothing reordered), and no two records have the same name. This
  holds for the offset-picker and for the free-text widget.
\<close>

theorem conversion_records_follow_zone_list:
  "(succeeds h s \<longrightarrow>
      length (OffsetApp.convertedTimes (convertTimes h s)) = 1 + length popularTimeZones
      \<and> length (OffsetApp.convertedTimes (convertTimes h s)) = 7
      \<and> map TimeZone.truncate (OffsetApp.convertedTimes (convertTimes h s)) = allTimeZones h
      \<and> zone (hd (OffsetApp.convertedTimes (convertTimes h s))) = timeZone h
      \<and> map TimeZone.truncate (tl (OffsetApp.convertedTimes (convertTimes h s)))
          = popularTimeZones
      \<and> distinct (map name (OffsetApp.convertedTimes (convertTimes h s))))
   \<and> (TextApp.error (handleConvert_text h u) = [] \<longrightarrow>
      length (TextApp.convertedTimes (handleConvert_text h u)) = 1 + length popularTimeZones
      \<and> length (TextApp.convertedTimes (handleConvert_text h u)) = 7
      \<and> map TimeZone.truncate (TextApp.convertedTimes (handleConvert_text h u)) = allTimeZones h
      \<and> zone (hd (TextApp.convertedTimes (handleConvert_text h u))) = timeZone h
      \<and> map TimeZone.truncate (tl (TextApp.convertedTimes (handleConvert_text h u)))
          = popularTimeZones
      \<and> distinct (map name (TextApp.convertedTimes (handleConvert_text h u))))"
proof (intro conjI impI)
  assume ok: "succeeds h s"
  let ?cs = "OffsetApp.convertedTimes (convertTimes h s)"
  have tr: "map TimeZone.truncate ?cs = allTimeZones h"
    using succeeds_results [OF ok] by (rule mapE_truncate [rotated]) (rule convertTime_Inr(1))
  then show "map TimeZone.truncate ?cs = allTimeZones h" .
  from tr have len: "length ?cs = length (allTimeZones h)"
    by (metis length_map)
  then show "length ?cs = 7" by (simp add: length_all)
  from len show "length ?cs = 1 + length popularTimeZones" by (simp add: length_all)
  from tr show "zone (hd ?cs) = timeZone h" and "map TimeZone.truncate (tl ?cs) = popularTimeZones"
    by (rule head_and_tail)+
  show "distinct (map name ?cs)"
    using names_distinct [of h] name_truncate [of ?cs] by (simp add: tr)
next
  assume ok: "TextApp.error (handleConvert_text h u) = []"
  let ?cs = "TextApp.convertedTimes (handleConvert_text h u)"
  obtain t where "mapE (convertRow h (Some t)) (allTimeZones h) = Inr ?cs"
    using text_ok_results [OF ok] by blast
  then have tr: "map TimeZone.truncate ?cs = allTimeZones h"
    by (rule mapE_truncate [rotated]) (rule convertRow_Inr)
  then show "map TimeZone.truncate ?cs = allTimeZones h" .
  from tr have len: "length ?cs = length (allTimeZones h)"
    by (metis length_map)
  then show "length ?cs = 7" by (simp add: length_all)
  from len show "length ?cs = 1 + length popularTimeZones" by (simp add: length_all)
  from tr show "zone (hd ?cs) = timeZone h" and "map TimeZone.truncate (tl ?cs) = popularTimeZones"
    by (rule head_and_tail)+
  show "distinct (map name ?cs)"
    using names_distinct [of h] name_truncate [of ?cs] by (simp add: tr)
qed

lemma noon_NewYork:
  "adjustedDate (hostNewYork now) ''2025-06-12'' ''12:00'' ''UTC'' = Some 1749744000000"
  by code_simp

lemma noon_Tokyo:
  "adjustedDate (hostTokyo now) ''2025-06-12'' ''12:00'' ''UTC'' = Some 1749697200000"
  by code_simp

lemma noon_text_NewYork:
  "Date_parse (hostNewYork now) ''2025-06-12T12:00'' = Some 1749744000000"
  by code_simp

lemma knownZones_hosts:
  "knownZones (hostNewYork now)" "knownZones (hostTokyo now)" "knownZones (hostUTC now)"
  by code_simp+

lemma succeeds_noon_NewYork: "succeeds (hostNewYork now) noonInput"
  by (simp add: succeeds_iff noonInput_def noon_NewYork knownZones_hosts)

lemma succeeds_noon_Tokyo: "succeeds (hostTokyo now) noonInput"
  by (simp add: succeeds_iff noonInput_def noon_Tokyo knownZones_hosts)

lemma text_ok_noon_NewYork: "TextApp.error (handleConvert_text (hostNewYork now) noonText) = []"
  by (simp add: text_ok_iff noonText_def noon_text_NewYork knownZones_hosts)

theorem conversion_records_follow_zone_list_witness:
  "succeeds (hostNewYork 0) noonInput
   \<and> TextApp.error (handleConvert_text (hostNewYork 0) noonText) = []
   \<and> length (OffsetApp.convertedTimes (convertTimes (hostNewYork 0) noonInput)) = 7
   \<and> map TimeZone.truncate (OffsetApp.convertedTimes (convertTimes (hostNewYork 0) noonInput))
       = allTimeZones (hostNewYork 0)
   \<and> distinct (map name (OffsetApp.convertedTimes (convertTimes (hostNewYork 0) noonInput)))
   \<and> length (TextApp.convertedTimes (handleConvert_text (hostNewYork 0) noonText)) = 7
   \<and> map TimeZone.truncate (TextApp.convertedTimes (handleConvert_text (hostNewYork 0) noonText))
       = allTimeZones (hostNewYork 0)
   \<and> distinct (map name (TextApp.convertedTimes (handleConvert_text (hostNewYork 0) noonText)))"
  using conversion_records_follow_zone_list [of "hostNewYork 0" noonInput noonText]
    succeeds_noon_NewYork [of 0] text_ok_noon_NewYork [of 0]
  by simp

lemma convertTimes_keeps_input:
  "OffsetApp.eventDate (convertTimes h s) = OffsetApp.eventDate s"
  "OffsetApp.eventTime (convertTimes h s) = OffsetApp.eventTime s"
  "OffsetApp.eventTimeZone (convertTimes h s) = OffsetApp.eventTimeZone s"
  by (simp_all add: convertTimes_def split: outcome.splits)

lemma succeeds_after: "succeeds h2 (convertTimes h1 s) = succeeds h2 s"
  by (simp add: succeeds_iff convertTimes_keeps_input)

lemma hd_truncate:
  "rs \<noteq> [] \<Longrightarrow> zone (hd rs) = zone (hd (map TimeZone.truncate rs))
     \<and> isLocal (hd rs) = isLocal (hd (map TimeZone.truncate rs))"
  by (cases rs) (simp_all add: TimeZone.truncate_def)

text \<open>
  C9: every call reads the viewer's zone from the host it runs on; nothing is kept from
  an earlier call. The first record of a successful conversion carries the zone the host
  reports at that call, marked local, so two calls on hosts with different zones give
  the respective zones.
\<close>

theorem viewer_zone_read_at_each_call:
  "(succeeds h1 s \<and> succeeds h2 (convertTimes h1 s) \<longrightarrow>
      zone (hd (OffsetApp.convertedTimes (convertTimes h1 s))) = timeZone h1
      \<and> isLocal (hd (OffsetApp.convertedTimes (convertTimes h1 s))) = Some True
      \<and> zone (hd (OffsetApp.convertedTimes (convertTimes h2 (convertTimes h1 s)))) = timeZone h2
      \<and> isLocal (hd (OffsetApp.convertedTimes (convertTimes h2 (convertTimes h1 s)))) = Some True)
   \<and> (TextApp.error (handleConvert_text h u) = [] \<longrightarrow>
      zone (hd (TextApp.convertedTimes (handleConvert_text h u))) = timeZone h
      \<and> isLocal (hd (TextApp.convertedTimes (handleConvert_text h u))) = Some True)"
proof (intro conjI impI)
  have first: "zone (hd (OffsetApp.convertedTimes (convertTimes h s))) = timeZone h
      \<and> isLocal (hd (OffsetApp.convertedTimes (convertTimes h s))) = Some True"
    if ok: "succeeds h s" for h s
  proof -
    let ?cs = "OffsetApp.convertedTimes (convertTimes h s)"
    have tr: "map TimeZone.truncate ?cs = allTimeZones h"
      using succeeds_results [OF ok] by (rule mapE_truncate [rotated]) (rule convertTime_Inr(1))
    then have "?cs \<noteq> []" using allTimeZones_nonempty [of h] by auto
    from hd_truncate [OF this] show ?thesis
      by (simp add: tr allTimeZones_def)
  qed
  assume both: "succeeds h1 s \<and> succeeds h2 (convertTimes h1 s)"
  from both first [of h1 s]
  show "zone (hd (OffsetApp.convertedTimes (convertTimes h1 s))) = timeZone h1"
    and "isLocal (hd (OffsetApp.convertedTimes (convertTimes h1 s))) = Some True"
    by simp_all
  from both first [of h2 "convertTimes h1 s"]
  show "zone (hd (OffsetApp.convertedTimes (convertTimes h2 (convertTimes h1 s)))) = timeZone h2"
    and "isLocal (hd (OffsetApp.convertedTimes (convertTimes h2 (convertTimes h1 s)))) = Some True"
    by simp_all
next
  assume ok: "TextApp.error (handleConvert_text h u) = []"
  let ?cs = "TextApp.convertedTimes (handleConvert_text h u)"
  obtain t where "mapE (convertRow h (Some t)) (allTimeZones h) = Inr ?cs"
    using text_ok_results [OF ok] by blast
  then have tr: "map TimeZone.truncate ?cs = allTimeZones h"
    by (rule mapE_truncate [rotated]) (rule convertRow_Inr)
  then have "?cs \<noteq> []" using allTimeZones_nonempty [of h] by auto
  from hd_truncate [OF this]
  show "zone (hd ?cs) = timeZone h" and "isLocal (hd ?cs) = Some True"
    by (simp_all add: tr allTimeZones_def)
qed

theorem viewer_zone_read_at_each_call_witness:
  "succeeds (hostNewYork 0) noonInput
   \<and> succeeds (hostTokyo 1) (convertTimes (hostNewYork 0) noonInput)
   \<and> TextApp.error (handleConvert_text (hostNewYork 0) noonText) = []
   \<and> zone (hd (OffsetApp.convertedTimes (convertTimes (hostNewYork 0) noonInput)))
       = ''America/New_York''
   \<and> zone (hd (OffsetApp.convertedTimes
        (convertTimes (hostTokyo 1) (convertTimes (hostNewYork 0) noonInput)))) = ''Asia/Tokyo''
   \<and> zone (hd (TextApp.convertedTimes (handleConvert_text (hostNewYork 0) noonText)))
       = ''America/New_York''"
  using viewer_zone_read_at_each_call [of "hostNewYork 0" noonInput "hostTokyo 1" "hostNewYork 0" noonText]
    succeeds_noon_NewYork [of 0] succeeds_noon_Tokyo [of 1] text_ok_noon_NewYork [of 0]
  by (simp add: succeeds_after hostNewYork_def hostTokyo_def)

subsection \<open>Determinism\<close>

lemma format_host_eq: "zoneRules h = zoneRules h' \<Longrightarrow> format h = format h'"
  by (intro ext) (simp add: format_def formatToParts_def)

lemma convertTime_host_eq:
  "zoneRules h = zoneRules h' \<Longrightarrow> convertTime h = convertTime h'"
  by (intro ext) (simp only: convertTime_def format_host_eq [of h h'])

lemma UTC_host_eq: "LocalTZA h = LocalTZA h' \<Longrightarrow> UTC h = UTC h'"
  by (intro ext) (simp add: UTC_def)

lemma adjustedDate_host_eq:
  "LocalTZA h = LocalTZA h' \<Longrightarrow> adjustedDate h = adjustedDate h'"
  by (intro ext) (simp only: adjustedDate_def Date_parse_def UTC_host_eq [of h h'])

lemma outcome_ignores_results:
  "convertTimes_outcome h (s\<lparr>OffsetApp.convertedTimes := cs\<rparr>) = convertTimes_outcome h s"
  by (simp add: convertTimes_outcome_def)

lemma convertTimes_idem: "convertTimes h (convertTimes h s) = convertTimes h s"
  by (cases "convertTimes_outcome h s") (simp_all add: convertTimes_def outcome_ignores_results)

text \<open>
  C6: the routine is deterministic. Running it again on its own result changes nothing,
  and its outcome (the list it sets or the exception it logs) is a function of the three
  input fields and of the host's zone, local offset and zone database alone: neither the
  previous results, nor the copy marker, nor the host clock enter it.
\<close>

theorem convertTimes_deterministic:
  "convertTimes h (convertTimes h s) = convertTimes h s
   \<and> (OffsetApp.eventDate s = OffsetApp.eventDate s'
        \<and> OffsetApp.eventTime s = OffsetApp.eventTime s'
        \<and> OffsetApp.eventTimeZone s = OffsetApp.eventTimeZone s'
        \<and> timeZone h = timeZone h' \<and> LocalTZA h = LocalTZA h' \<and> zoneRules h = zoneRules h'
      \<longrightarrow> convertTimes_outcome h s = convertTimes_outcome h' s'
          \<and> console_error h s = console_error h' s')"
proof (intro conjI impI)
  show "convertTimes h (convertTimes h s) = convertTimes h s" by (rule convertTimes_idem)
next
  assume same: "OffsetApp.eventDate s = OffsetApp.eventDate s'
        \<and> OffsetApp.eventTime s = OffsetApp.eventTime s'
        \<and> OffsetApp.eventTimeZone s = OffsetApp.eventTimeZone s'
        \<and> timeZone h = timeZone h' \<and> LocalTZA h = LocalTZA h' \<and> zoneRules h = zoneRules h'"
  then have zs: "allTimeZones h = allTimeZones h'" by (simp add: allTimeZones_def)
  from same have f: "convertTime h = convertTime h'" by (intro convertTime_host_eq) simp
  from same have a: "adjustedDate h = adjustedDate h'" by (intro adjustedDate_host_eq) simp
  show o: "convertTimes_outcome h s = convertTimes_outcome h' s'"
    using same by (simp add: convertTimes_outcome_def zs f a)
  show "console_error h s = console_error h' s'"
    by (simp add: console_error_def o)
qed

lemma hostNewYork_clock:
  "timeZone (hostNewYork a) = timeZone (hostNewYork b)"
  "LocalTZA (hostNewYork a) = LocalTZA (hostNewYork b)"
  "zoneRules (hostNewYork a) = zoneRules (hostNewYork b)"
  by (simp_all add: hostNewYork_def)

theorem convertTimes_deterministic_witness:
  "OffsetApp.eventDate noonInput = OffsetApp.eventDate (noonInput\<lparr>OffsetApp.copiedIndex := Some 2\<rparr>)
   \<and> OffsetApp.eventTime noonInput = OffsetApp.eventTime (noonInput\<lparr>OffsetApp.copiedIndex := Some 2\<rparr>)
   \<and> OffsetApp.eventTimeZone noonInput
        = OffsetApp.eventTimeZone (noonInput\<lparr>OffsetApp.copiedIndex := Some 2\<rparr>)
   \<and> timeZone (hostNewYork 0) = timeZone (hostNewYork 5)
   \<and> LocalTZA (hostNewYork 0) = LocalTZA (hostNewYork 5)
   \<and> zoneRules (hostNewYork 0) = zoneRules (hostNewYork 5)
   \<and> convertTimes_outcome (hostNewYork 0) noonInput
        = convertTimes_outcome (hostNewYork 5) (noonInput\<lparr>OffsetApp.copiedIndex := Some 2\<rparr>)
   \<and> convertTimes (hostNewYork 0) (convertTimes (hostNewYork 0) noonInput)
        = convertTimes (hostNewYork 0) noonInput"
proof -
  have i: "OffsetApp.eventDate noonInput = OffsetApp.eventDate (noonInput\<lparr>OffsetApp.copiedIndex := Some 2\<rparr>)"
    "OffsetApp.eventTime noonInput = OffsetApp.eventTime (noonInput\<lparr>OffsetApp.copiedIndex := Some 2\<rparr>)"
    "OffsetApp.eventTimeZone noonInput
        = OffsetApp.eventTimeZone (noonInput\<lparr>OffsetApp.copiedIndex := Some 2\<rparr>)"
    by simp_all
  show ?thesis
    using convertTimes_deterministic
      [of "hostNewYork 0" noonInput "noonInput\<lparr>OffsetApp.copiedIndex := Some 2\<rparr>" "hostNewYork 5"]
      i hostNewYork_clock [of 0 5]
    by blast
qed


subsection \<open>Failures\<close>











lemma Date_parse_on_UTC_host:
  assumes "LocalTZA h = (\<lambda>t isUTC. 0)"
  shows "Date_parse h s = parseAsUTC s"
proof -
  have "UTC h = UTC \<lparr>clock = 0, timeZone = ''UTC'', LocalTZA = (\<lambda>t u. 0), zoneRules = (\<lambda>z. None)\<rparr>"
    by (intro ext) (simp add: UTC_def assms)
  then show ?thesis by (simp only: Date_parse_def parseAsUTC_def)
qed

text \<open>
  C1, at an input the claim fails on: the fields 2025-06-12 and 12:00 with the offset
  \<open>UTC\<close>, on a host whose zone is New York. Read as literal UTC the fields are the
  instant 1749729600000; the anchor of the code is 1749744000000, four hours later,
  because \<open>new Date\<close> reads a date-time string without offset as local time.
\<close>

theorem anchor_is_read_as_local_time:
  "adjustedDate (hostNewYork 0) ''2025-06-12'' ''12:00'' ''UTC'' = Some 1749744000000
   \<and> parseAsUTC ''2025-06-12T12:00:00'' = Some 1749729600000
   \<and> offsetHours ''UTC'' = Some 0"
  by code_simp

text \<open>
  C8, at an input the claim fails on: the fields 2025-06-12 and 12:00 with the offset
  \<open>UTC\<close>, on a host whose zone is New York. The anchor is 16:00 UTC, so the records
  show New York at 12:00 PM, London at 5:00 PM and Tokyo at 1:00 AM on Jun 13, not
  8:00 AM, 1:00 PM and 9:00 PM on Jun 12.
\<close>

theorem noon_input_on_New_York_host:
  "map (\<lambda>r. (name r, ConvertedTime.timeOnly r, dateOnly r))
     (OffsetApp.convertedTimes (convertTimes (hostNewYork 0) noonInput)) =
   [(''Your Local Time'', ''12:00 PM'', ''Jun 12''),
    (''New York'', ''12:00 PM'', ''Jun 12''),
    (''Los Angeles'', ''9:00 AM'', ''Jun 12''),
    (''London'', ''5:00 PM'', ''Jun 12''),
    (''Tokyo'', ''1:00 AM'', ''Jun 13''),
    (''Sydney'', ''2:00 AM'', ''Jun 13''),
    (''Dubai'', ''8:00 PM'', ''Jun 12'')]"
  by code_simp

text \<open>
  The formatting itself is as the example says: on a host whose zone is UTC the same
  input gives New York 8:00 AM, London 1:00 PM and Tokyo 9:00 PM, all on Jun 12.
\<close>

lemma noon_input_on_UTC_host:
  "map (\<lambda>r. (name r, ConvertedTime.timeOnly r, dateOnly r))
     (OffsetApp.convertedTimes (convertTimes (hostUTC 0) noonInput)) =
   [(''Your Local Time'', ''12:00 PM'', ''Jun 12''),
    (''New York'', ''8:00 AM'', ''Jun 12''),
    (''Los Angeles'', ''5:00 AM'', ''Jun 12''),
    (''London'', ''1:00 PM'', ''Jun 12''),
    (''Tokyo'', ''9:00 PM'', ''Jun 12''),
    (''Sydney'', ''10:00 PM'', ''Jun 12''),
    (''Dubai'', ''4:00 PM'', ''Jun 12'')]"
  by code_simp

subsection \<open>Whole-hour offsets\<close>

lemma isRadixDigit_10: "isRadixDigit 10 c \<Longrightarrow> (case digitValue c of None \<Rightarrow> 0 | Some d \<Rightarrow> d) \<le> 9"
  by (auto simp: isRadixDigit_def split: option.splits)

lemma digitsValue_bound:
  "list_all (isRadixDigit 10) s \<Longrightarrow> digitsValue 10 acc s < (acc + 1) * 10 ^ length s"
proof (induction s arbitrary: acc)
  case Nil
  then show ?case by simp
next
  case (Cons c cs)
  let ?d = "case digitValue c of None \<Rightarrow> 0 | Some d \<Rightarrow> d"
  from Cons.prems have d: "?d \<le> 9" and cs: "list_all (isRadixDigit 10) cs"
    by (simp_all add: isRadixDigit_10)
  have "digitsValue 10 (acc * 10 + ?d) cs < (acc * 10 + ?d + 1) * 10 ^ length cs"
    by (rule Cons.IH [OF cs])
  also have "\<dots> \<le> (acc * 10 + 10) * 10 ^ length cs"
    using d by (intro mult_right_mono) simp_all
  also have "\<dots> = (acc + 1) * 10 ^ length (c # cs)"
    by (simp add: algebra_simps)
  finally show ?case by simp
qed

lemma decimal_range: "decimal n s = Some v \<Longrightarrow> 0 \<le> v \<and> v < 10 ^ n"
proof -
  assume a: "decimal n s = Some v"
  then have l: "length s = n" and d: "list_all (isRadixDigit 10) s"
    and v: "v = int (digitsValue 10 0 s)"
    by (auto simp: decimal_def split: if_splits)
  from digitsValue_bound [OF d, of 0] l have "digitsValue 10 0 s < 10 ^ n" by simp
  then have "int (digitsValue 10 0 s) < 10 ^ n"
    by (metis of_nat_less_iff of_nat_numeral of_nat_power)
  with v show ?thesis by simp
qed

lemma parseDatePart_range:
  assumes "parseDatePart s = Some (y, m, dt)"
  shows "0 \<le> y \<and> y \<le> 9999 \<and> 1 \<le> m \<and> m \<le> 12 \<and> 1 \<le> dt \<and> dt \<le> 31"
proof -
  have y: "0 \<le> y' \<and> y' \<le> 9999" if "decimal 4 x = Some y'" for x y'
    using decimal_range [OF that] by simp
  from assms show ?thesis
    by (auto simp: parseDatePart_def split: if_splits option.splits dest: y)
qed

lemma parseTimePart_range:
  assumes "parseTimePart s = Some (hh, mi, ss, ms)"
  shows "0 \<le> hh \<and> hh \<le> 24 \<and> 0 \<le> mi \<and> mi \<le> 59 \<and> 0 \<le> ss \<and> ss \<le> 59 \<and> 0 \<le> ms \<and> ms \<le> 999"
proof -
  have d2: "0 \<le> v" if "decimal 2 x = Some v" for x v
    using decimal_range [OF that] by simp
  have d3: "0 \<le> v \<and> v \<le> 999" if "decimal 3 x = Some v" for x v
    using decimal_range [OF that] by simp
  from assms show ?thesis
    by (auto simp: parseTimePart_def validTime_def split: if_splits option.splits dest: d2 d3)
qed

lemma parseOffsetPart_range:
  assumes "parseOffsetPart s = Some (Some off)"
  shows "\<bar>off\<bar> \<le> 1439"
proof -
  have d2: "0 \<le> v" if "decimal 2 x = Some v" for x v
    using decimal_range [OF that] by simp
  from assms show ?thesis
    by (auto simp: parseOffsetPart_def split: if_splits option.splits dest!: d2)
qed

lemma DayFromYear_range:
  assumes "0 \<le> y" "y \<le> 9999"
  shows "- 720000 \<le> DayFromYear y \<and> DayFromYear y \<le> 2940000"
proof -
  have a: "- 493 \<le> (y - 1969) div 4 \<and> (y - 1969) div 4 \<le> 2007" using assms by linarith
  have b: "- 20 \<le> (y - 1901) div 100 \<and> (y - 1901) div 100 \<le> 80" using assms by linarith
  have c: "- 5 \<le> (y - 1601) div 400 \<and> (y - 1601) div 400 \<le> 20" using assms by linarith
  have g: "\<And>p q r :: int. - 493 \<le> p \<and> p \<le> 2007 \<Longrightarrow> - 20 \<le> q \<and> q \<le> 80 \<Longrightarrow> - 5 \<le> r \<and> r \<le> 20 \<Longrightarrow>
      - 720000 \<le> 365 * (y - 1970) + p - q + r \<and> 365 * (y - 1970) + p - q + r \<le> 2940000"
    using assms by auto
  show ?thesis unfolding DayFromYear_def by (rule g [OF a b c])
qed

lemma monthStart_range: "0 \<le> monthStart (if b then 1 else 0) m \<and> monthStart (if b then 1 else 0) m \<le> 335"
  by (simp add: monthStart_def)

lemma MakeDay_range:
  assumes "0 \<le> y" "y \<le> 9999" "1 \<le> m" "m \<le> 12" "1 \<le> dt" "dt \<le> 31"
  shows "\<bar>MakeDay y (m - 1) dt\<bar> \<le> 2950000"
proof -
  have d: "(m - 1) div 12 = 0" using assms by simp
  have "MakeDay y (m - 1) dt =
      DayFromYear y + monthStart (if DaysInYear y = 366 then 1 else 0) ((m - 1) mod 12) + dt - 1"
    by (simp add: MakeDay_def Let_def d)
  with DayFromYear_range [OF assms(1,2)]
    monthStart_range [of "DaysInYear y = 366" "(m - 1) mod 12"] assms(5,6)
  show ?thesis by linarith
qed

lemma MakeTime_range:
  assumes "0 \<le> hh \<and> hh \<le> 24 \<and> 0 \<le> mi \<and> mi \<le> 59 \<and> 0 \<le> ss \<and> ss \<le> 59 \<and> 0 \<le> ms \<and> ms \<le> 999"
  shows "0 \<le> MakeTime hh mi ss ms \<and> MakeTime hh mi ss ms \<le> 90000000"
  using assms
  by (simp add: MakeTime_def msPerHour_def msPerMinute_def msPerSecond_def)

lemma TimeClip_Some: "TimeClip t = Some v \<Longrightarrow> v = t"
  by (simp add: TimeClip_def split: if_splits)

lemma Date_parse_date_only:
  assumes "parseDatePart (takeWhile (\<lambda>c. c \<noteq> CHR ''T'') s) = Some (y, m, dt)"
    and "dropWhile (\<lambda>c. c \<noteq> CHR ''T'') s = []"
  shows "Date_parse h s = TimeClip (MakeDate (MakeDay y (m - 1) dt) 0)"
  unfolding Date_parse_def Let_def assms by simp

lemma Date_parse_date_time:
  assumes "parseDatePart (takeWhile (\<lambda>c. c \<noteq> CHR ''T'') s) = Some (y, m, dt)"
    and "dropWhile (\<lambda>c. c \<noteq> CHR ''T'') s \<noteq> []"
  shows "Date_parse h s =
    (case (parseTimePart (takeWhile (\<lambda>c. \<not> isOffsetStart c) (tl (dropWhile (\<lambda>c. c \<noteq> CHR ''T'') s))),
           parseOffsetPart (dropWhile (\<lambda>c. \<not> isOffsetStart c) (tl (dropWhile (\<lambda>c. c \<noteq> CHR ''T'') s)))) of
       (Some (hh, mi, ss, ms), Some z) \<Rightarrow>
         (case z of
            None \<Rightarrow> TimeClip (UTC h (MakeDate (MakeDay y (m - 1) dt) (MakeTime hh mi ss ms)))
          | Some off \<Rightarrow>
              TimeClip (MakeDate (MakeDay y (m - 1) dt) (MakeTime hh mi ss ms) - off * msPerMinute))
     | _ \<Rightarrow> None)"
  unfolding Date_parse_def Let_def assms(1) using assms(2) by (simp only: option.case prod.case if_False)

lemma Date_parse_range:
  assumes p: "Date_parse h s = Some v" and tz: "\<And>t. \<bar>LocalTZA h t False\<bar> \<le> msPerDay"
  shows "\<bar>v\<bar> \<le> 260000000000000"
proof -
  let ?d = "takeWhile (\<lambda>c. c \<noteq> CHR ''T'') s"
  let ?rest = "dropWhile (\<lambda>c. c \<noteq> CHR ''T'') s"
  have "parseDatePart ?d \<noteq> None"
    using p unfolding Date_parse_def Let_def by (cases "parseDatePart ?d") simp_all
  then obtain y m dt where d: "parseDatePart ?d = Some (y, m, dt)"
    by (cases "parseDatePart ?d") auto
  let ?day = "MakeDay y (m - 1) dt"
  from parseDatePart_range [OF d] have day: "\<bar>?day\<bar> \<le> 2950000"
    by (intro MakeDay_range) simp_all
  show ?thesis
  proof (cases "?rest = []")
    case True
    from p have "v = MakeDate ?day 0"
      unfolding Date_parse_date_only [OF d True] by (auto dest: TimeClip_Some)
    with day show ?thesis by (simp add: MakeDate_def msPerDay_def)
  next
    case False
    let ?t = "parseTimePart (takeWhile (\<lambda>c. \<not> isOffsetStart c) (tl ?rest))"
    let ?z = "parseOffsetPart (dropWhile (\<lambda>c. \<not> isOffsetStart c) (tl ?rest))"
    note eq = Date_parse_date_time [OF d False, of h]
    from p obtain hh mi ss ms where t: "?t = Some (hh, mi, ss, ms)"
      unfolding eq by (cases ?t) auto
    from p obtain z where z: "?z = Some z"
      unfolding eq t by (cases ?z) auto
    let ?u = "MakeDate ?day (MakeTime hh mi ss ms)"
    from MakeTime_range [OF parseTimePart_range [OF t]] day
    have u: "\<bar>?u\<bar> \<le> 254970000000000"
      unfolding MakeDate_def msPerDay_def by linarith
    show ?thesis
    proof (cases z)
      case None
      from p have "v = UTC h ?u"
        unfolding eq t z None by (auto dest: TimeClip_Some)
      with u tz [of ?u] show ?thesis by (simp add: UTC_def msPerDay_def)
    next
      case (Some off)
      from p have v: "v = ?u - off * msPerMinute"
        unfolding eq t z Some by (auto dest: TimeClip_Some)
      from parseOffsetPart_range z Some have "\<bar>off\<bar> \<le> 1439" by simp
      with u v show ?thesis by (simp add: msPerMinute_def)
    qed
  qed
qed

lemma offsetHours_in_range:
  assumes "l \<in> set utcOffsets"
  shows "\<exists>n. offsetHours l = Some n \<and> - 12 \<le> n \<and> n \<le> 12"
proof -
  from assms have "offsetHours l \<in> set (map offsetHours utcOffsets)" by simp
  then have "offsetHours l \<in> Some ` {-12..12}" by (simp only: offsetHours_labels set_map set_upto)
  then show ?thesis by auto
qed

lemma adjustedDate_in_range:
  assumes p: "Date_parse h (d @ ''T'' @ t @ '':00'') = Some v"
    and tz: "\<And>x. \<bar>LocalTZA h x False\<bar> \<le> msPerDay"
    and n: "offsetHours l = Some n" "- 12 \<le> n" "n \<le> 12"
  shows "adjustedDate h d t l = Some (v - n * 3600000)"
proof -
  from Date_parse_range [OF p tz] have "\<bar>v\<bar> \<le> 260000000000000" .
  with n(2,3) have "\<bar>v - n * 3600000\<bar> \<le> 8640000000000000" by linarith
  then show ?thesis
    using p n(1) by (simp add: adjustedDate_def Date_of_number_def TimeClip_def)
qed

lemma half_hour_label: "offsetHours ''UTC+5:30'' = Some 5"
  by (simp add: offsetHours_def parseInt_def or_else_def isWhiteSpace_def isRadixDigit_def Let_def)

text \<open>
  C7: the offset is a whole number of hours. Every label of the list gives an integer
  between -12 and 12, the select can only put a label of the list into the state, and
  \<open>UTC+5:30\<close> is not among them (\<open>parseInt\<close> would cut it to 5 whole hours). For
  every date and time that parse, on a host whose local offset stays below a day, each
  label (the two ends \<open>UTC+12\<close> and \<open>UTC-12\<close> included) gives a valid anchor: the
  parsed instant minus exactly that many hours.
\<close>

theorem offsets_are_whole_hours:
  "(\<forall>l \<in> set utcOffsets. \<exists>n. offsetHours l = Some n \<and> - 12 \<le> n \<and> n \<le> 12)
   \<and> ''UTC+5:30'' \<notin> set utcOffsets
   \<and> offsetHours ''UTC+5:30'' = Some 5
   \<and> (i < length utcOffsets \<longrightarrow>
        OffsetApp.eventTimeZone (selectEventTimeZone i s) \<in> set utcOffsets)
   \<and> ((\<forall>x. \<bar>LocalTZA h x False\<bar> \<le> msPerDay)
        \<and> Date_parse h (d @ ''T'' @ t @ '':00'') = Some v \<longrightarrow>
        adjustedDate h d t ''UTC+12'' = Some (v - 12 * 3600000)
        \<and> adjustedDate h d t ''UTC-12'' = Some (v + 12 * 3600000)
        \<and> (\<forall>l \<in> set utcOffsets. \<exists>n. offsetHours l = Some n
              \<and> adjustedDate h d t l = Some (v - n * 3600000)))"
proof (intro conjI impI ballI)
  fix l assume "l \<in> set utcOffsets"
  then show "\<exists>n. offsetHours l = Some n \<and> - 12 \<le> n \<and> n \<le> 12"
    by (rule offsetHours_in_range)
next
  show "''UTC+5:30'' \<notin> set utcOffsets" by (simp add: utcOffsets_def)
next
  show "offsetHours ''UTC+5:30'' = Some 5" by (rule half_hour_label)
next
  assume "i < length utcOffsets"
  then show "OffsetApp.eventTimeZone (selectEventTimeZone i s) \<in> set utcOffsets"
    by (simp add: selectEventTimeZone_def)
next
  assume a: "(\<forall>x. \<bar>LocalTZA h x False\<bar> \<le> msPerDay)
        \<and> Date_parse h (d @ ''T'' @ t @ '':00'') = Some v"
  then have tz: "\<And>x. \<bar>LocalTZA h x False\<bar> \<le> msPerDay"
    and p: "Date_parse h (d @ ''T'' @ t @ '':00'') = Some v" by simp_all
  have hi: "offsetHours ''UTC+12'' = Some 12" and lo: "offsetHours ''UTC-12'' = Some (- 12)"
    by (simp_all add: offsetHours_def parseInt_def or_else_def isWhiteSpace_def
        isRadixDigit_def Let_def)
  show "adjustedDate h d t ''UTC+12'' = Some (v - 12 * 3600000)"
    using adjustedDate_in_range [OF p tz hi] by simp
  show "adjustedDate h d t ''UTC-12'' = Some (v + 12 * 3600000)"
    using adjustedDate_in_range [OF p tz lo] by simp
  fix l assume "l \<in> set utcOffsets"
  from offsetHours_in_range [OF this] obtain n
    where n: "offsetHours l = Some n" "- 12 \<le> n" "n \<le> 12" by blast
  from adjustedDate_in_range [OF p tz n]
  show "\<exists>n. offsetHours l = Some n \<and> adjustedDate h d t l = Some (v - n * 3600000)"
    using n(1) by simp
qed

theorem offsets_are_whole_hours_witness:
  "24 < length utcOffsets
   \<and> (\<forall>x. \<bar>LocalTZA (hostNewYork 0) x False\<bar> \<le> msPerDay)
   \<and> Date_parse (hostNewYork 0) (''2025-06-12'' @ ''T'' @ ''12:00'' @ '':00'') = Some 1749744000000
   \<and> OffsetApp.eventTimeZone (selectEventTimeZone 24 noonInput) \<in> set utcOffsets
   \<and> adjustedDate (hostNewYork 0) ''2025-06-12'' ''12:00'' ''UTC+12'' = Some 1749700800000
   \<and> adjustedDate (hostNewYork 0) ''2025-06-12'' ''12:00'' ''UTC-12'' = Some 1749787200000"
proof -
  have l: "24 < length utcOffsets" by (simp add: utcOffsets_def)
  have z: "\<forall>x. \<bar>LocalTZA (hostNewYork 0) x False\<bar> \<le> msPerDay"
    by (simp add: hostNewYork_def msPerDay_def msPerHour_def)
  have p: "Date_parse (hostNewYork 0) (''2025-06-12'' @ ''T'' @ ''12:00'' @ '':00'') = Some 1749744000000"
    by code_simp
  show ?thesis
    using offsets_are_whole_hours [of 24 noonInput "hostNewYork 0" "''2025-06-12''" "''12:00''" 1749744000000]
      l z p
    by simp
qed

subsection \<open>Quick fill\<close>


















text \<open>
  Two more ways in which a quick fill and the instant 24 hours later part, both outside
  daylight saving. The free-text widget converts the event time of the render in which
  the button was pressed, not the one it has just set. The offset picker fills the date
  field from the UTC date and the time field from the local clock, so late in the evening
  in New York the two fields together name an instant a day too late.
\<close>

lemma quick_fill_text_converts_previous_time:
  assumes "setHours h (clock h) (getHours h (clock h) + k) = Some now"
  shows "TextApp.convertedTimes (handleQuickFill_text h k s)
           = TextApp.convertedTimes (handleConvert_text h s)"
    and "TextApp.error (handleQuickFill_text h k s) = TextApp.error (handleConvert_text h s)"
    and "TextApp.eventTime (handleQuickFill_text h k s) = toISOString now"
  using assms by (simp_all add: handleQuickFill_text_def)

lemma quick_fill_text_on_empty_field:
  "TextApp.error (handleQuickFill_text (hostUTC 1749729600000) 24 emptyText)
     = ''Please enter an event time''"
  "TextApp.convertedTimes (handleQuickFill_text (hostUTC 1749729600000) 24 emptyText) = []"
  "TextApp.eventTime (handleQuickFill_text (hostUTC 1749729600000) 24 emptyText)
     = ''2025-06-13T12:00:00.000Z''"
  unfolding emptyText_def by code_simp+

lemma quick_fill_mixes_utc_date_and_local_time:
  "handleQuickFill (hostNewYork 1749780000000) 24 noonInput =
     noonInput\<lparr>eventDate := ''2025-06-14'', OffsetApp.eventTime := ''22:00''\<rparr>"
  "adjustedDate (hostNewYork 1749780000000) ''2025-06-14'' ''22:00'' ''UTC''
     = Some (1749780000000 + 48 * 3600000)"
  unfolding noonInput_def by code_simp+

subsection \<open>The anchor in general\<close>

text \<open>
  What the offset picker computes from fields that parse: where reading the fields as
  literal UTC gives the instant \<open>u\<close>, the anchor is \<open>u\<close> minus the local offset of the
  host, minus the selected hours. It is \<open>u\<close> minus the hours exactly when that local
  offset is zero.
\<close>

lemma Date_parse_local:
  assumes u: "parseAsUTC s = Some u"
    and T: "CHR ''T'' \<in> set s"
    and no: "\<forall>c \<in> set (tl (dropWhile (\<lambda>c. c \<noteq> CHR ''T'') s)). \<not> isOffsetStart c"
  shows "Date_parse h s = TimeClip (u - LocalTZA h u False)"
proof -
  let ?h0 = "\<lparr>clock = 0, timeZone = ''UTC'', LocalTZA = (\<lambda>t u. 0), zoneRules = (\<lambda>z. None)\<rparr>"
  let ?d = "takeWhile (\<lambda>c. c \<noteq> CHR ''T'') s"
  let ?rest = "dropWhile (\<lambda>c. c \<noteq> CHR ''T'') s"
  let ?ts = "takeWhile (\<lambda>c. \<not> isOffsetStart c) (tl ?rest)"
  let ?zs = "dropWhile (\<lambda>c. \<not> isOffsetStart c) (tl ?rest)"
  from u have p0: "Date_parse ?h0 s = Some u" by (simp add: parseAsUTC_def)
  have "parseDatePart ?d \<noteq> None"
    using p0 unfolding Date_parse_def Let_def by (cases "parseDatePart ?d") simp_all
  then obtain y m dt where d: "parseDatePart ?d = Some (y, m, dt)"
    by (cases "parseDatePart ?d") auto
  from T have rest: "?rest \<noteq> []" by (simp add: dropWhile_eq_Nil_conv)
  from no have zs: "?zs = []" by (simp add: dropWhile_eq_Nil_conv)
  then have z: "parseOffsetPart ?zs = Some None" by (simp add: parseOffsetPart_def)
  note e0 = Date_parse_date_time [OF d rest, of ?h0]
  note e = Date_parse_date_time [OF d rest, of h]
  from p0 obtain hh mi ss ms where t: "parseTimePart ?ts = Some (hh, mi, ss, ms)"
    unfolding e0 by (cases "parseTimePart ?ts") auto
  let ?t0 = "MakeDate (MakeDay y (m - 1) dt) (MakeTime hh mi ss ms)"
  from p0 have "TimeClip ?t0 = Some u"
    unfolding e0 t z by (simp add: UTC_def)
  then have "u = ?t0" by (rule TimeClip_Some)
  then show ?thesis unfolding e t z by (simp add: UTC_def)
qed

lemma anchor_is_local:
  assumes u: "parseAsUTC (d @ ''T'' @ t @ '':00'') = Some u"
    and d: "CHR ''T'' \<notin> set d"
    and t: "\<forall>c \<in> set t. \<not> isOffsetStart c"
    and n: "offsetHours l = Some n"
  shows "adjustedDate h d t l =
     (case TimeClip (u - LocalTZA h u False) of
        None \<Rightarrow> None | Some v \<Rightarrow> TimeClip (v - n * 3600000))"
proof -
  from d have "dropWhile (\<lambda>c. c \<noteq> CHR ''T'') (d @ ''T'' @ t @ '':00'') = ''T'' @ t @ '':00''"
    by (auto simp: dropWhile_append3)
  then have no: "\<forall>c \<in> set (tl (dropWhile (\<lambda>c. c \<noteq> CHR ''T'') (d @ ''T'' @ t @ '':00''))). \<not> isOffsetStart c"
    using t by (auto simp: isOffsetStart_def)
  have "Date_parse h (d @ ''T'' @ t @ '':00'') = TimeClip (u - LocalTZA h u False)"
    by (rule Date_parse_local [OF u _ no]) simp
  then show ?thesis
    using n by (simp add: adjustedDate_def Date_of_number_def mult.commute split: option.splits)
qed

end
